theory Spec2Isabelle
  imports Complex_Main "HOL-Library.Monad_Syntax"
begin

section \<open>Number model\<close>

text \<open>
  The extension module \<^verbatim>\<open>_sstmap_ext.c\<close> computes on C \<^verbatim>\<open>float\<close> and \<^verbatim>\<open>double\<close> values.
  They are modelled as exact reals: rounding, infinities and NaN are outside the model, and
  \<^verbatim>\<open>sqrt\<close>, \<^verbatim>\<open>log\<close>, \<^verbatim>\<open>cos\<close>, \<^verbatim>\<open>acos\<close>, \<^verbatim>\<open>floor\<close> are the functions of the same name on the
  reals. C \<^verbatim>\<open>int\<close> is a 32-bit signed integer: a conversion or an operation whose result
  does not fit is undefined behaviour and is the value \<open>None\<close>. C \<^verbatim>\<open>unsigned int\<close> is an
  integer reduced modulo \<open>2 ^ 32\<close> after every operation.
\<close>

definition int_in_range :: "int \<Rightarrow> bool" where
  "int_in_range n \<longleftrightarrow> - (2 ^ 31) \<le> n \<and> n < 2 ^ 31"

definition c_int :: "int \<Rightarrow> int option" where
  \<comment> \<open>the result of a signed \<^verbatim>\<open>int\<close> operation\<close>
  "c_int n = (if int_in_range n then Some n else None)"

definition double_to_int :: "real \<Rightarrow> int option" where
  \<comment> \<open>the cast \<^verbatim>\<open>(int) r\<close>: truncation towards zero, defined when the result fits\<close>
  "double_to_int r =
     (let t = (if 0 \<le> r then \<lfloor>r\<rfloor> else \<lceil>r\<rceil>) in if int_in_range t then Some t else None)"

definition u32 :: "int \<Rightarrow> int" where
  \<comment> \<open>the value of an \<^verbatim>\<open>unsigned int\<close> expression\<close>
  "u32 n = n mod 2 ^ 32"

text \<open>
  A floating-point operation that has no real result (a division by zero, the logarithm of
  a number that is not positive, the square root of a negative number, the arc cosine of a
  number outside \<open>[-1, 1]\<close>) yields an infinity or a NaN in C. Such a result is not a
  real number, so in the model the operation is \<open>None\<close> there.
\<close>

definition fdiv :: "real \<Rightarrow> real \<Rightarrow> real option" where
  "fdiv x y = (if y = 0 then None else Some (x / y))"

definition flog :: "real \<Rightarrow> real option" where
  "flog x = (if 0 < x then Some (ln x) else None)"

definition fsqrt :: "real \<Rightarrow> real option" where
  "fsqrt x = (if 0 \<le> x then Some (sqrt x) else None)"

definition facos :: "real \<Rightarrow> real option" where
  "facos x = (if - 1 \<le> x \<and> x \<le> 1 then Some (arccos x) else None)"

fun foldM :: "('a \<Rightarrow> 's \<Rightarrow> 's option) \<Rightarrow> 'a list \<Rightarrow> 's \<Rightarrow> 's option" where
  \<comment> \<open>a \<^verbatim>\<open>for\<close> loop over the listed values that stops at the first undefined step\<close>
  "foldM f [] s = Some s"
| "foldM f (x # xs) s = (case f x s of None \<Rightarrow> None | Some s' \<Rightarrow> foldM f xs s')"

section \<open>Minimum-image distances\<close>

type_synonym vec3 = "real \<times> real \<times> real"
type_synonym mat3 = "vec3 \<times> vec3 \<times> vec3"

fun matrix_vector_product :: "mat3 \<Rightarrow> vec3 \<Rightarrow> vec3" where
  "matrix_vector_product ((m0, m1, m2), (m3, m4, m5), (m6, m7, m8)) (v0, v1, v2) =
     (m0 * v0 + m1 * v1 + m2 * v2,
      m3 * v0 + m4 * v1 + m5 * v2,
      m6 * v0 + m7 * v1 + m8 * v2)"

fun sq_diff :: "vec3 \<Rightarrow> vec3 \<Rightarrow> real" where
  \<comment> \<open>\<^verbatim>\<open>pow(x_r[0]-y_r[0], 2) + pow(x_r[1]-y_r[1], 2) + pow(x_r[2]-y_r[2], 2)\<close>\<close>
  "sq_diff (x0, x1, x2) (y0, y1, y2) = (x0 - y0)\<^sup>2 + (x1 - y1)\<^sup>2 + (x2 - y2)\<^sup>2"

definition nc :: "real list" where
  "nc = [-1, 0, 1]"

fun wrap_frac :: "vec3 \<Rightarrow> vec3" where
  \<comment> \<open>\<^verbatim>\<open>x_f[i] = x_f[i] - floor(x_f[i])\<close> on the three components\<close>
  "wrap_frac (f0, f1, f2) =
     (f0 - of_int \<lfloor>f0\<rfloor>, f1 - of_int \<lfloor>f1\<rfloor>, f2 - of_int \<lfloor>f2\<rfloor>)"

definition dist_mic_tric_squared :: "vec3 \<Rightarrow> vec3 \<Rightarrow> mat3 \<Rightarrow> mat3 \<Rightarrow> real" where
  "dist_mic_tric_squared x y uc_vec inv_uc_vec =
     (let x_f = wrap_frac (matrix_vector_product inv_uc_vec x);
          y_f = wrap_frac (matrix_vector_product inv_uc_vec y);
          x_r = matrix_vector_product uc_vec x_f;
          y_r = matrix_vector_product uc_vec y_f;
          n_dist2 = sq_diff x_r y_r
      in fold (\<lambda>i. fold (\<lambda>j. fold (\<lambda>k n_dist2.
                 let t_y_f = (fst y_f + i, fst (snd y_f) + j, snd (snd y_f) + k);
                     t_dist2 = sq_diff x_r (matrix_vector_product uc_vec t_y_f)
                 in if t_dist2 \<le> n_dist2 then t_dist2 else n_dist2) nc) nc) nc n_dist2)"

definition dist_mic_squared ::
  "real \<Rightarrow> real \<Rightarrow> real \<Rightarrow> real \<Rightarrow> real \<Rightarrow> real \<Rightarrow> real \<Rightarrow> real \<Rightarrow> real \<Rightarrow> real" where
  "dist_mic_squared x1 x2 x3 y1 y2 y3 b1 b2 b3 =
     (let dx = x1 - y1;
          dy = x2 - y2;
          dz = x3 - y3;
          dx = (if dx > b1 / 2 then dx - b1 else if dx < - b1 / 2 then dx + b1 else dx);
          dy = (if dy > b2 / 2 then dy - b2 else if dy < - b2 / 2 then dy + b2 else dy);
          dz = (if dz > b3 / 2 then dz - b3 else if dz < - b3 / 2 then dz + b3 else dz)
      in dx * dx + dy * dy + dz * dz)"

definition diag_cell :: "real \<Rightarrow> real \<Rightarrow> real \<Rightarrow> mat3" where
  \<comment> \<open>a unit cell whose off-diagonal entries are zero\<close>
  "diag_cell b1 b2 b3 = ((b1, 0, 0), (0, b2, 0), (0, 0, b3))"

definition min3 :: "(real \<Rightarrow> real) \<Rightarrow> real" where
  \<comment> \<open>the least value over the three image shifts of \<open>nc\<close>\<close>
  "min3 h = min (h (-1)) (min (h 0) (h 1))"

definition axis_sq :: "real \<Rightarrow> real \<Rightarrow> real \<Rightarrow> real \<Rightarrow> real" where
  \<comment> \<open>one axis of \<open>t_dist2\<close> in a diagonal cell of edge \<open>b\<close>, for the image shift \<open>k\<close>\<close>
  "axis_sq b x y k =
     (b * (x / b - of_int \<lfloor>x / b\<rfloor>) - b * (y / b - of_int \<lfloor>y / b\<rfloor> + k))\<^sup>2"

definition mic1 :: "real \<Rightarrow> real \<Rightarrow> real" where
  \<comment> \<open>the one-step wrap that \<open>dist_mic_squared\<close> applies to each difference\<close>
  "mic1 b dx = (if dx > b / 2 then dx - b else if dx < - b / 2 then dx + b else dx)"

section \<open>Voxel assignment\<close>

text \<open>
  \<^verbatim>\<open>_sstmap_ext_assign_voxels\<close>: the body of the loop for one water of one frame is
  \<open>assign_water\<close>; it yields the entries appended to \<^verbatim>\<open>frame_data\<close>, each a pair of
  \<^verbatim>\<open>voxel_id\<close> and \<^verbatim>\<open>wat_id\<close>. The array \<^verbatim>\<open>coords\<close> is a function of the frame and the
  atom index.
\<close>

fun assign_water ::
  "int \<times> int \<times> int \<Rightarrow> vec3 \<Rightarrow> vec3 \<Rightarrow> vec3 \<Rightarrow> int \<Rightarrow> (int \<times> int) list option" where
  "assign_water (grid_dim_x, grid_dim_y, grid_dim_z) (grid_max_x, grid_max_y, grid_max_z)
       (grid_orig_x, grid_orig_y, grid_orig_z) (wat_x, wat_y, wat_z) wat_id =
     (let wat_translated_x = wat_x - grid_orig_x;
          wat_translated_y = wat_y - grid_orig_y;
          wat_translated_z = wat_z - grid_orig_z
      in if wat_translated_x \<le> grid_max_x \<and> wat_translated_y \<le> grid_max_y \<and>
            wat_translated_z \<le> grid_max_z \<and>
            wat_translated_x \<ge> - 1.5 \<and> wat_translated_y \<ge> - 1.5 \<and> wat_translated_z \<ge> - 1.5
         then
           if wat_translated_x \<ge> 0 \<and> wat_translated_y \<ge> 0 \<and> wat_translated_z \<ge> 0
           then do {
             grid_index_x \<leftarrow> double_to_int (wat_translated_x / 0.5);
             grid_index_y \<leftarrow> double_to_int (wat_translated_y / 0.5);
             grid_index_z \<leftarrow> double_to_int (wat_translated_z / 0.5);
             if grid_index_x < grid_dim_x \<and> grid_index_y < grid_dim_y \<and> grid_index_z < grid_dim_z
             then do {
               a \<leftarrow> c_int (grid_index_x * grid_dim_y);
               b \<leftarrow> c_int (a + grid_index_y);
               c \<leftarrow> c_int (b * grid_dim_z);
               voxel_id \<leftarrow> c_int (c + grid_index_z);
               Some [(voxel_id, wat_id)]
             }
             else Some []
           }
           else Some []
         else Some [])"

definition assign_voxels ::
  "(nat \<Rightarrow> int \<Rightarrow> vec3) \<Rightarrow> nat \<Rightarrow> int \<times> int \<times> int \<Rightarrow> vec3 \<Rightarrow> vec3 \<Rightarrow> (int \<times> int) list \<Rightarrow>
     int list \<Rightarrow> (int \<times> int) list option" where
  "assign_voxels coords n_frames grid_dim grid_max grid_orig frame_data wat_oxygen_ids =
     foldM (\<lambda>i_frame. foldM (\<lambda>wat_id frame_data. do {
              wat_data \<leftarrow> assign_water grid_dim grid_max grid_orig (coords i_frame wat_id) wat_id;
              Some (frame_data @ wat_data)
            }) wat_oxygen_ids) [0..<n_frames] frame_data"

section \<open>Pairwise energy kernel\<close>

text \<open>
  \<^verbatim>\<open>_sstmap_ext_calculate_energy\<close>: the four arrays are functions of the site index \<open>i\<close> and
  the atom index \<open>j\<close>; \<^verbatim>\<open>acoeff\<close> and \<^verbatim>\<open>chg\<close> are overwritten in place.
\<close>

record energy_arrays =
  acoeff :: "nat \<Rightarrow> nat \<Rightarrow> real"
  chg :: "nat \<Rightarrow> nat \<Rightarrow> real"

definition energy_pair ::
  "(nat \<Rightarrow> nat \<Rightarrow> real) \<Rightarrow> (nat \<Rightarrow> nat \<Rightarrow> real) \<Rightarrow> int \<Rightarrow> nat \<Rightarrow> nat \<Rightarrow> energy_arrays \<Rightarrow>
     energy_arrays option" where
  "energy_pair dist_array bcoeff wat i j s = do {
     at_i \<leftarrow> c_int (wat + int i);
     if at_i = int j then Some s
     else do {
       let d = dist_array i j;
       let a = acoeff s i j;
       let b = bcoeff i j;
       let c = chg s i j;
       d_sqrt \<leftarrow> fsqrt d;
       d_inv \<leftarrow> fdiv 1 d;
       let d6 = d_inv * d_inv * d_inv;
       let d12 = d6 * d6;
       let a = a * d12;
       let a = a - b * d6;
       c \<leftarrow> fdiv c d_sqrt;
       Some (s\<lparr>acoeff := (acoeff s)(i := (acoeff s i)(j := a)),
               chg := (chg s)(i := (chg s i)(j := c))\<rparr>)
     }
   }"

definition calculate_energy ::
  "int \<Rightarrow> nat \<Rightarrow> nat \<Rightarrow> (nat \<Rightarrow> nat \<Rightarrow> real) \<Rightarrow> (nat \<Rightarrow> nat \<Rightarrow> real) \<Rightarrow> energy_arrays \<Rightarrow>
     energy_arrays option" where
  \<comment> \<open>\<open>solvent_at_sites\<close> and \<open>n_atoms\<close> are the two dimensions of the array \<^verbatim>\<open>dist\<close>, here \<open>dist_array\<close>\<close>
  "calculate_energy wat solvent_at_sites n_atoms dist_array bcoeff s =
     foldM (\<lambda>i. foldM (\<lambda>j. energy_pair dist_array bcoeff wat i j) [0..<n_atoms]) [0..<solvent_at_sites] s"

section \<open>Orientational nearest-neighbour entropy of one voxel\<close>

text \<open>
  \<^verbatim>\<open>_sstmap_ext_getNNOrEntropy\<close>: \<^verbatim>\<open>voxel_wat_Eulers\<close> is a function of the water and of the
  angle index. \<open>twopi\<close> is the double written \<^verbatim>\<open>2*M_PI\<close> here and \<^verbatim>\<open>6.283185307179586\<close> in
  \<^verbatim>\<open>_sstmap_ext_getNNTrEntropy\<close>.
\<close>

definition twopi :: real where
  "twopi = 2 * pi"

definition wrap_angle :: "real \<Rightarrow> real" where
  \<comment> \<open>\<^verbatim>\<open>if (ry>M_PI) ry = twopi-ry; else if (ry<-M_PI) ry = twopi+ry;\<close>\<close>
  "wrap_angle ry = (if ry > pi then twopi - ry else if ry < - pi then twopi + ry else ry)"

definition euler_dW :: "(nat \<Rightarrow> nat \<Rightarrow> real) \<Rightarrow> nat \<Rightarrow> nat \<Rightarrow> real option" where
  "euler_dW voxel_wat_Eulers n l =
     (let rx = cos (voxel_wat_Eulers l 0) - cos (voxel_wat_Eulers n 0);
          ry = voxel_wat_Eulers l 1 - voxel_wat_Eulers n 1;
          rz = voxel_wat_Eulers l 2 - voxel_wat_Eulers n 2;
          ry = wrap_angle ry;
          rz = wrap_angle rz
      in fsqrt (rx * rx + ry * ry + rz * rz))"

definition or_partner :: "(nat \<Rightarrow> nat \<Rightarrow> real) \<Rightarrow> nat \<Rightarrow> nat \<Rightarrow> real \<Rightarrow> real option" where
  \<comment> \<open>the body of the loop over \<open>l\<close>\<close>
  "or_partner voxel_wat_Eulers n l NNor =
     (if l = n then Some NNor
      else do {
        dW \<leftarrow> euler_dW voxel_wat_Eulers n l;
        Some (if dW > 0 \<and> dW < NNor then dW else NNor)
      })"

definition or_water :: "nat \<Rightarrow> (nat \<Rightarrow> nat \<Rightarrow> real) \<Rightarrow> nat \<Rightarrow> real \<Rightarrow> real option" where
  \<comment> \<open>the body of the loop over \<open>n\<close>\<close>
  "or_water nwtot voxel_wat_Eulers n voxel_dTSor = do {
     NNor \<leftarrow> foldM (or_partner voxel_wat_Eulers n) [0..<nwtot] 10000;
     if NNor < 9999 \<and> NNor > 0
     then do {
       wat_or_ent \<leftarrow> flog (real nwtot * NNor * NNor * NNor / (3.0 * twopi));
       Some (voxel_dTSor + wat_or_ent)
     }
     else Some voxel_dTSor
   }"

definition getNNOrEntropy :: "int \<Rightarrow> (nat \<Rightarrow> nat \<Rightarrow> real) \<Rightarrow> real option" where
  "getNNOrEntropy nwtot voxel_wat_Eulers =
     foldM (or_water (nat nwtot) voxel_wat_Eulers) [0..<nat nwtot] 0"

section \<open>Combined nearest-neighbour estimator on the grid\<close>

text \<open>
  \<^verbatim>\<open>_sstmap_ext_getNNTrEntropy\<close>. The table \<^verbatim>\<open>voxel_data\<close> is a function of the voxel
  index and the column; \<^verbatim>\<open>voxel_O_coords\<close> and \<^verbatim>\<open>voxel_quarts\<close> give, for a voxel index,
  the flat list of coordinates (three per water) and of quaternion components (four per
  water). Reading a list item is \<^verbatim>\<open>PyFloat_AsDouble(PyList_GetItem(l, i))\<close>, which is
  \<open>-1\<close> when \<open>i\<close> is not an index of the list. Loop counters are natural numbers.
\<close>

type_synonym voxel_table = "int \<Rightarrow> nat \<Rightarrow> real"

record nn_inputs =
  num_frames :: int
  voxel_vol :: real
  ref_dens :: real
  temp :: real
  voxel_O_coords :: "int \<Rightarrow> real list"
  voxel_quarts :: "int \<Rightarrow> real list"

record nn_state =
  voxel_data :: voxel_table
  dTSt :: real
  dTSs :: real
  dTSo :: real
  nwts :: int
  nwtt :: int
  dTStranstot :: real
  dTSorienttot :: real

record nn =
  NNd :: real
  NNs :: real
  NNr :: real

definition gas_kcal :: real where
  "gas_kcal = 0.0019872041"

definition euler_masc :: real where
  "euler_masc = 0.5772156649"

definition py_item :: "real list \<Rightarrow> nat \<Rightarrow> real" where
  "py_item l i = (if i < length l then l ! i else - 1)"

definition dist_squared :: "real \<Rightarrow> real \<Rightarrow> real \<Rightarrow> real \<Rightarrow> real \<Rightarrow> real \<Rightarrow> real" where
  "dist_squared x1 x2 x3 y1 y2 y3 =
     (let dx = x1 - y1; dy = x2 - y2; dz = x3 - y3 in dx\<^sup>2 + dy\<^sup>2 + dz\<^sup>2)"

definition water_dd :: "real list \<Rightarrow> nat \<Rightarrow> real list \<Rightarrow> nat \<Rightarrow> real" where
  \<comment> \<open>\<open>dd\<close> between water \<open>n0\<close> of one coordinate list and water \<open>n1\<close> of another\<close>
  "water_dd coords0 n0 coords1 n1 =
     (let i0 = n0 * 3; i1 = n1 * 3
      in dist_squared (py_item coords0 i0) (py_item coords0 (i0 + 1)) (py_item coords0 (i0 + 2))
           (py_item coords1 i1) (py_item coords1 (i1 + 1)) (py_item coords1 (i1 + 2)))"

definition water_rR :: "real list \<Rightarrow> nat \<Rightarrow> real list \<Rightarrow> nat \<Rightarrow> real option" where
  \<comment> \<open>\<open>rR\<close> between water \<open>n0\<close> of one quaternion list and water \<open>n1\<close> of another\<close>
  "water_rR quarts0 n0 quarts1 n1 =
     (let q0 = n0 * 4; q1 = n1 * 4
      in do {
        a \<leftarrow> facos (py_item quarts0 q0 * py_item quarts1 q1 +
                     py_item quarts0 (q0 + 1) * py_item quarts1 (q1 + 1) +
                     py_item quarts0 (q0 + 2) * py_item quarts1 (q1 + 2) +
                     py_item quarts0 (q0 + 3) * py_item quarts1 (q1 + 3));
        Some (2 * a)
      })"

definition self_candidate :: "real list \<Rightarrow> real list \<Rightarrow> nat \<Rightarrow> nat \<Rightarrow> nn \<Rightarrow> nn option" where
  \<comment> \<open>the body of the loop over the waters \<open>n1\<close> of the voxel of \<open>n0\<close>\<close>
  "self_candidate curr_voxel_coords curr_voxel_quarts n0 n1 s =
     (if n1 \<noteq> n0
      then do {
        let dd = water_dd curr_voxel_coords n0 curr_voxel_coords n1;
        let s = (if dd < NNd s \<and> dd > 0 then s\<lparr>NNd := dd\<rparr> else s);
        rR \<leftarrow> water_rR curr_voxel_quarts n0 curr_voxel_quarts n1;
        let ds = rR * rR + dd;
        let s = (if ds < NNs s \<and> ds > 0 then s\<lparr>NNs := ds\<rparr> else s);
        Some (if rR > 0 \<and> rR < NNr s then s\<lparr>NNr := rR\<rparr> else s)
      }
      else Some s)"

definition nbr_candidate ::
  "real list \<Rightarrow> real list \<Rightarrow> nat \<Rightarrow> real list \<Rightarrow> real list \<Rightarrow> nat \<Rightarrow> nn \<Rightarrow> nn option" where
  \<comment> \<open>the body of each of the loops over the waters \<open>n1\<close> of a neighbour voxel\<close>
  "nbr_candidate curr_voxel_coords curr_voxel_quarts n0 nbr_voxel_coords nbr_voxel_quarts n1 s = do {
     let dd = water_dd curr_voxel_coords n0 nbr_voxel_coords n1;
     let s = (if dd < NNd s \<and> dd > 0 then s\<lparr>NNd := dd\<rparr> else s);
     rR \<leftarrow> water_rR curr_voxel_quarts n0 nbr_voxel_quarts n1;
     let ds = rR * rR + dd;
     Some (if ds < NNs s \<and> ds > 0 then s\<lparr>NNs := ds\<rparr> else s)
   }"

definition nbr_scan :: "nn_inputs \<Rightarrow> voxel_table \<Rightarrow> int \<Rightarrow> nat \<Rightarrow> int \<Rightarrow> nn \<Rightarrow> nn option" where
  \<comment> \<open>one neighbour voxel: \<^verbatim>\<open>for (n1 = 0; n1 != (int)n1_total; n1++)\<close>, which does not end
      when the count is negative\<close>
  "nbr_scan I vd voxel n0 nbr s = do {
     n1_total \<leftarrow> double_to_int (vd nbr 4);
     if n1_total < 0 then None
     else foldM (nbr_candidate (voxel_O_coords I voxel) (voxel_quarts I voxel) n0
                   (voxel_O_coords I nbr) (voxel_quarts I nbr)) [0..<nat n1_total] s
   }"

definition nbr_voxels :: "int \<Rightarrow> int \<Rightarrow> int \<Rightarrow> int \<Rightarrow> int list" where
  \<comment> \<open>the neighbour voxel indices in the order of the scans of the source\<close>
  "nbr_voxels nx ny nz voxel =
     (let addx = u32 (ny * nz); addy = nz; addz = 1
      in [u32 (voxel + addz),
          u32 (voxel + addy),
          u32 (voxel + addx),
          u32 (voxel - addz),
          u32 (voxel - addy),
          u32 (voxel - addx),
          u32 (u32 (voxel + addz) + addy),
          u32 (u32 (voxel + addz) - addy),
          u32 (u32 (voxel + addz) + addy),
          u32 (u32 (voxel + addz) - addy),
          u32 (u32 (voxel - addz) + addy),
          u32 (u32 (voxel - addz) - addy),
          u32 (u32 (voxel + addz) + addx),
          u32 (u32 (voxel + addz) - addx),
          u32 (u32 (voxel - addz) + addx),
          u32 (u32 (voxel - addz) - addx),
          u32 (u32 (voxel + addy) + addx),
          u32 (u32 (voxel + addy) - addx),
          u32 (u32 (voxel - addy) + addx),
          u32 (u32 (voxel - addy) - addx)])"

definition boundary :: "int \<Rightarrow> int \<Rightarrow> int \<Rightarrow> int \<Rightarrow> bool option" where
  \<comment> \<open>\<open>None\<close> is a division by zero in \<^verbatim>\<open>voxel / addx\<close> or in a \<^verbatim>\<open>%\<close>\<close>
  "boundary nx ny nz voxel =
     (let addx = u32 (ny * nz)
      in if addx = 0 then None
         else
           let numplane = voxel div addx;
               cannotAddZ = (nz = 0 \<or> voxel mod nz = u32 (nz - 1));
               divisor = u32 (u32 (nz * u32 (ny - 1)) + u32 (numplane * addx))
           in if \<not> (nz = 0 \<or> u32 (ny - 1) = 0) \<and> divisor = 0 then None
              else
                let cannotAddY = ((nz = 0 \<or> u32 (ny - 1) = 0) \<or> voxel mod divisor < nz);
                    cannotAddX = (voxel \<ge> u32 (addx * u32 (nx - 1)) \<and> voxel < u32 (addx * nx));
                    cannotSubZ = (nz = 0 \<or> voxel mod nz = 0);
                    cannotSubY = ((nz = 0 \<or> ny = 0) \<or> voxel mod addx < nz);
                    cannotSubX = ((nz = 0 \<or> ny = 0) \<or> (voxel \<ge> 0 \<and> voxel < addx))
                in Some (cannotAddZ \<or> cannotAddY \<or> cannotAddX \<or>
                         cannotSubZ \<or> cannotSubY \<or> cannotSubX))"

definition add_col :: "int \<Rightarrow> nat \<Rightarrow> real \<Rightarrow> voxel_table \<Rightarrow> voxel_table" where
  \<comment> \<open>\<^verbatim>\<open>*(double *) PyArray_GETPTR2(voxel_data, voxel, col) += x\<close>\<close>
  "add_col voxel col x vd = vd(voxel := (vd voxel)(col := vd voxel col + x))"

definition set_col :: "int \<Rightarrow> nat \<Rightarrow> real \<Rightarrow> voxel_table \<Rightarrow> voxel_table" where
  \<comment> \<open>\<^verbatim>\<open>*(double *) PyArray_GETPTR2(voxel_data, voxel, col) = x\<close>\<close>
  "set_col voxel col x vd = vd(voxel := (vd voxel)(col := x))"

definition self_scan :: "nn_inputs \<Rightarrow> int \<Rightarrow> real \<Rightarrow> nat \<Rightarrow> nn option" where
  \<comment> \<open>the three sentinels after the loop over the waters of the voxel of \<open>n0\<close>\<close>
  "self_scan I voxel nw_total n0 = do {
     m \<leftarrow> double_to_int nw_total;
     foldM (self_candidate (voxel_O_coords I voxel) (voxel_quarts I voxel) n0) [0..<nat m]
       \<lparr>NNd = 10000, NNs = 10000, NNr = 10000\<rparr>
   }"

definition orient_accum :: "int \<Rightarrow> real \<Rightarrow> nn \<Rightarrow> nn_state \<Rightarrow> nn_state option" where
  \<comment> \<open>\<^verbatim>\<open>if (nw_total > 1) { if (NNr < 9999 && NNr > 0) { ... } }\<close>\<close>
  "orient_accum voxel nw_total s st =
     (if nw_total > 1
      then
        if NNr s < 9999 \<and> NNr s > 0
        then do {
          dbl \<leftarrow> flog (NNr s * NNr s * NNr s * nw_total / (3.0 * twopi));
          Some (st\<lparr>voxel_data := add_col voxel 10 dbl (voxel_data st), dTSo := dTSo st + dbl\<rparr>)
        }
        else Some st
      else Some st)"

definition trans_accum :: "nn_inputs \<Rightarrow> int \<Rightarrow> nn \<Rightarrow> nn_state \<Rightarrow> nn_state option" where
  \<comment> \<open>the end of the \<^verbatim>\<open>if (!boundary)\<close> block, after the scans of the neighbour voxels\<close>
  "trans_accum I voxel s st = do {
     NNd \<leftarrow> fsqrt (NNd s);
     NNs \<leftarrow> fsqrt (NNs s);
     if NNd < 3 \<and> NNd > 0
     then do {
       dbl \<leftarrow> flog ((NNd * NNd * NNd * of_int (num_frames I) * 4 * pi * ref_dens I) / 3);
       let st = st\<lparr>voxel_data := add_col voxel 8 dbl (voxel_data st), dTSt := dTSt st + dbl\<rparr>;
       dbl \<leftarrow> flog ((NNs * NNs * NNs * NNs * NNs * NNs * of_int (num_frames I) * pi * ref_dens I) / 48);
       Some (st\<lparr>voxel_data := add_col voxel 12 dbl (voxel_data st), dTSs := dTSs st + dbl\<rparr>)
     }
     else Some st
   }"

definition water_body ::
  "nn_inputs \<Rightarrow> int \<Rightarrow> int \<Rightarrow> int \<Rightarrow> int \<Rightarrow> real \<Rightarrow> nat \<Rightarrow> nn_state \<Rightarrow> nn_state option" where
  \<comment> \<open>the body of the loop over the waters \<open>n0\<close> of a voxel\<close>
  "water_body I nx ny nz voxel nw_total n0 st = do {
     s \<leftarrow> self_scan I voxel nw_total n0;
     st \<leftarrow> orient_accum voxel nw_total s st;
     b \<leftarrow> boundary nx ny nz voxel;
     if \<not> b
     then do {
       s \<leftarrow> foldM (nbr_scan I (voxel_data st) voxel n0) (nbr_voxels nx ny nz voxel) s;
       trans_accum I voxel s st
     }
     else Some st
   }"

definition orient_norm :: "nn_inputs \<Rightarrow> int \<Rightarrow> real \<Rightarrow> nn_state \<Rightarrow> nn_state option" where
  \<comment> \<open>\<^verbatim>\<open>if (dTSorient_norm != 0) { ... }\<close> and the update of \<^verbatim>\<open>dTSorienttot\<close>\<close>
  "orient_norm I voxel nw_total st = do {
     let dTSorient_norm = voxel_data st voxel 10;
     st \<leftarrow> (if dTSorient_norm \<noteq> 0
            then do {
              q \<leftarrow> fdiv dTSorient_norm nw_total;
              let vd = set_col voxel 10 (gas_kcal * temp I * (q + euler_masc)) (voxel_data st);
              d \<leftarrow> fdiv (vd voxel 10 * nw_total) (of_int (num_frames I) * voxel_vol I);
              Some (st\<lparr>voxel_data := set_col voxel 9 d vd\<rparr>)
            }
            else Some st);
     Some (st\<lparr>dTSorienttot := dTSorienttot st + voxel_data st voxel 9\<rparr>)
   }"

definition trans_norm :: "nn_inputs \<Rightarrow> int \<Rightarrow> real \<Rightarrow> real \<Rightarrow> real \<Rightarrow> nn_state \<Rightarrow> nn_state option" where
  \<comment> \<open>\<^verbatim>\<open>if (dTStrans_norm != 0) { ... }\<close>, the two densities and the update of
      \<^verbatim>\<open>dTStranstot\<close>\<close>
  "trans_norm I voxel nw_total dTStrans_norm dTSsix_norm st = do {
     st \<leftarrow> (if dTStrans_norm \<noteq> 0
            then do {
              n \<leftarrow> double_to_int (of_int (nwts st) + nw_total);
              q8 \<leftarrow> fdiv dTStrans_norm nw_total;
              let vd = set_col voxel 8 (gas_kcal * temp I * (q8 + euler_masc)) (voxel_data st);
              q12 \<leftarrow> fdiv dTSsix_norm nw_total;
              let vd = set_col voxel 12 (gas_kcal * temp I * (q12 + euler_masc)) vd;
              Some (st\<lparr>voxel_data := vd, nwts := n\<rparr>)
            }
            else Some st);
     d7 \<leftarrow> fdiv (voxel_data st voxel 8 * nw_total) (of_int (num_frames I) * voxel_vol I);
     let vd = set_col voxel 7 d7 (voxel_data st);
     d11 \<leftarrow> fdiv (vd voxel 12 * nw_total) (of_int (num_frames I) * voxel_vol I);
     let vd = set_col voxel 11 d11 vd;
     Some (st\<lparr>voxel_data := vd, dTStranstot := dTStranstot st + vd voxel 7\<rparr>)
   }"

definition voxel_body :: "nn_inputs \<Rightarrow> int \<Rightarrow> int \<Rightarrow> int \<Rightarrow> int \<Rightarrow> nn_state \<Rightarrow> nn_state option" where
  \<comment> \<open>the body of the loop over the voxels\<close>
  "voxel_body I nx ny nz voxel st =
     (if u32 (ny * nz) = 0 then None
      else do {
        let nw_total = voxel_data st voxel 4;
        n \<leftarrow> double_to_int (of_int (nwtt st) + nw_total);
        let st = st\<lparr>nwtt := n\<rparr>;
        voxel_dens \<leftarrow> fdiv (1.0 * nw_total) (of_int (num_frames I) * voxel_vol I);
        g \<leftarrow> fdiv voxel_dens (ref_dens I);
        let st = st\<lparr>voxel_data := add_col voxel 5 g (voxel_data st)\<rparr>;
        m \<leftarrow> double_to_int nw_total;
        st \<leftarrow> foldM (water_body I nx ny nz voxel nw_total) [0..<nat m] st;
        let dTStrans_norm = voxel_data st voxel 8;
        let dTSsix_norm = voxel_data st voxel 12;
        st \<leftarrow> orient_norm I voxel nw_total st;
        trans_norm I voxel nw_total dTStrans_norm dTSsix_norm st
      })"

definition getNNTrEntropy :: "nn_inputs \<Rightarrow> int \<times> int \<times> int \<Rightarrow> voxel_table \<Rightarrow> nn_state option" where
  \<comment> \<open>\<open>grid_dims\<close> holds three C integers; the state after the loop over the voxels, with
      the two grid totals scaled by the voxel volume. The values that are only printed
      from this state are not computed here.\<close>
  "getNNTrEntropy I grid_dims vd =
     (case grid_dims of (gx, gy, gz) \<Rightarrow>
        let nx = u32 gx; ny = u32 gy; nz = u32 gz;
            max_voxel_index = u32 (u32 (nx * ny) * nz)
        in do {
          st \<leftarrow> foldM (voxel_body I nx ny nz) (map int [0..<nat max_voxel_index])
                 \<lparr>voxel_data = vd, dTSt = 0, dTSs = 0, dTSo = 0, nwts = 0, nwtt = 0,
                  dTStranstot = 0, dTSorienttot = 0\<rparr>;
          Some (st\<lparr>dTStranstot := dTStranstot st * voxel_vol I,
                  dTSorienttot := dTSorienttot st * voxel_vol I\<rparr>)
        })"

section \<open>Auxiliary notions used in the statements\<close>

definition pairs_done ::
  "int \<Rightarrow> (nat \<Rightarrow> nat \<Rightarrow> real) \<Rightarrow> (nat \<Rightarrow> nat \<Rightarrow> real) \<Rightarrow> (nat \<times> nat) set \<Rightarrow> energy_arrays \<Rightarrow>
     energy_arrays" where
  \<comment> \<open>the two arrays once the pairs of \<open>P\<close> have been visited\<close>
  "pairs_done wat dist_array bcoeff P s =
     \<lparr>acoeff = (\<lambda>i j. if (i, j) \<in> P \<and> int j \<noteq> wat + int i
                        then acoeff s i j / (sqrt (dist_array i j)) ^ 12
                             - bcoeff i j / (sqrt (dist_array i j)) ^ 6
                        else acoeff s i j),
      chg = (\<lambda>i j. if (i, j) \<in> P \<and> int j \<noteq> wat + int i
                     then chg s i j / sqrt (dist_array i j) else chg s i j)\<rparr>"

definition euler_sep :: "(nat \<Rightarrow> nat \<Rightarrow> real) \<Rightarrow> nat \<Rightarrow> nat \<Rightarrow> real" where
  \<comment> \<open>the angular separation \<open>dW\<close> of the waters \<open>n\<close> and \<open>l\<close>\<close>
  "euler_sep E n l = sqrt ((cos (E l 0) - cos (E n 0))\<^sup>2 + (wrap_angle (E l 1 - E n 1))\<^sup>2
                         + (wrap_angle (E l 2 - E n 2))\<^sup>2)"

definition or_candidates :: "(nat \<Rightarrow> nat \<Rightarrow> real) \<Rightarrow> nat \<Rightarrow> nat \<Rightarrow> real set" where
  \<comment> \<open>the strictly positive separations of water \<open>n\<close> from the other waters below \<open>N\<close>\<close>
  "or_candidates E N n = {d. \<exists>l<N. l \<noteq> n \<and> d = euler_sep E n l \<and> 0 < d}"

definition or_NNor :: "(nat \<Rightarrow> nat \<Rightarrow> real) \<Rightarrow> nat \<Rightarrow> nat \<Rightarrow> real" where
  "or_NNor E N n = Min (insert 10000 (or_candidates E N n))"

definition or_term :: "(nat \<Rightarrow> nat \<Rightarrow> real) \<Rightarrow> nat \<Rightarrow> nat \<Rightarrow> real" where
  "or_term E N n =
     (if or_NNor E N n < 9999 then ln (real N * (or_NNor E N n) ^ 3 / (3 * (2 * pi))) else 0)"

definition far_eulers :: "nat \<Rightarrow> nat \<Rightarrow> real" where
  \<comment> \<open>two waters whose second angles differ by 20000\<close>
  "far_eulers n k = (if n = 1 \<and> k = 1 then 20000 else 0)"

definition near_eulers :: "nat \<Rightarrow> nat \<Rightarrow> real" where
  \<comment> \<open>two waters whose second angles differ by 1\<close>
  "near_eulers n k = (if n = 1 \<and> k = 1 then 1 else 0)"

text \<open>
  Grid coordinates: \<open>voxel_at ny nz (ix, iy, iz) (dx, dy, dz)\<close> is the flattened index
  \<^verbatim>\<open>(ix*ny + iy)*nz + iz\<close> of the voxel at the offset \<open>(dx, dy, dz)\<close> from the voxel with
  the coordinates \<open>(ix, iy, iz)\<close>; a voxel is \<open>interior\<close> when it has a neighbour on both
  sides along every axis.
\<close>

definition interior :: "int \<Rightarrow> int \<Rightarrow> int \<Rightarrow> int \<Rightarrow> bool" where
  "interior nx ny nz voxel \<longleftrightarrow>
     (\<exists>ix iy iz. 1 \<le> ix \<and> ix + 2 \<le> nx \<and> 1 \<le> iy \<and> iy + 2 \<le> ny \<and> 1 \<le> iz \<and> iz + 2 \<le> nz
        \<and> voxel = (ix * ny + iy) * nz + iz)"

definition face_offsets :: "(int \<times> int \<times> int) set" where
  "face_offsets = {(1, 0, 0), (- 1, 0, 0), (0, 1, 0), (0, - 1, 0), (0, 0, 1), (0, 0, - 1)}"

definition face_diagonal_offsets :: "(int \<times> int \<times> int) set" where
  "face_diagonal_offsets =
     {(0, 1, 1), (0, 1, - 1), (0, - 1, 1), (0, - 1, - 1),
      (1, 0, 1), (1, 0, - 1), (- 1, 0, 1), (- 1, 0, - 1),
      (1, 1, 0), (1, - 1, 0), (- 1, 1, 0), (- 1, - 1, 0)}"

definition corner_offsets :: "(int \<times> int \<times> int) set" where
  "corner_offsets =
     {(1, 1, 1), (1, 1, - 1), (1, - 1, 1), (1, - 1, - 1),
      (- 1, 1, 1), (- 1, 1, - 1), (- 1, - 1, 1), (- 1, - 1, - 1)}"

fun voxel_at :: "int \<Rightarrow> int \<Rightarrow> int \<times> int \<times> int \<Rightarrow> int \<times> int \<times> int \<Rightarrow> int" where
  "voxel_at ny nz (ix, iy, iz) (dx, dy, dz) = ((ix + dx) * ny + (iy + dy)) * nz + (iz + dz)"

text \<open>
  The nearest orientational neighbour of a water within its own voxel, and the example
  grids of 3 by 3 by 3 voxels used below (one frame, unit voxel volume and reference
  density).
\<close>

definition ex_inputs :: "(int \<Rightarrow> real list) \<Rightarrow> (int \<Rightarrow> real list) \<Rightarrow> nn_inputs" where
  "ex_inputs coords quarts =
     \<lparr>num_frames = 1, voxel_vol = 1, ref_dens = 1, temp = 300,
      voxel_O_coords = coords, voxel_quarts = quarts\<rparr>"

definition ex_state :: "voxel_table \<Rightarrow> nn_state" where
  "ex_state vd = \<lparr>voxel_data = vd, dTSt = 0, dTSs = 0, dTSo = 0, nwts = 0, nwtt = 0,
                  dTStranstot = 0, dTSorienttot = 0\<rparr>"

definition counts_13_14 :: voxel_table where
  "counts_13_14 v c = (if c = 4 then (if v = 13 then 2 else if v = 14 then 1 else 0) else 0)"

definition coords_13_14 :: "int \<Rightarrow> real list" where
  "coords_13_14 v = (if v = 13 then [0, 0, 0, 1, 0, 0] else if v = 14 then [0, 0, 1] else [])"

definition quarts_13_14 :: "int \<Rightarrow> real list" where
  "quarts_13_14 v =
     (if v = 13 then [1, 0, 0, 0, - 1, 0, 0, 0] else if v = 14 then [0, 1, 0, 0] else [])"

definition counts_13 :: voxel_table where
  "counts_13 v c = (if c = 4 \<and> v = 13 then 2 else 0)"

definition coords_13 :: "int \<Rightarrow> real list" where
  "coords_13 v = (if v = 13 then [0, 0, 0, 0, 0, 0] else [])"

definition quarts_13 :: "int \<Rightarrow> real list" where
  "quarts_13 v = (if v = 13 then [1, 0, 0, 0, 0, 1, 0, 0] else [])"

definition stale_col10 :: voxel_table where
  "stale_col10 v c = (if v = 13 \<and> c = 10 then 1 else 0)"

definition stale_col9 :: voxel_table where
  "stale_col9 v c = (if v = 13 \<and> c = 9 then 5 else 0)"

definition no_waters :: "int \<Rightarrow> real list" where
  "no_waters v = []"

definition self_rR_candidates :: "nn_inputs \<Rightarrow> int \<Rightarrow> nat \<Rightarrow> nat \<Rightarrow> real set" where
  "self_rR_candidates I voxel m n0 =
     {rR. \<exists>n1<m. n1 \<noteq> n0
            \<and> water_rR (voxel_quarts I voxel) n0 (voxel_quarts I voxel) n1 = Some rR \<and> 0 < rR}"

definition self_NNr :: "nn_inputs \<Rightarrow> int \<Rightarrow> real \<Rightarrow> nat \<Rightarrow> real" where
  "self_NNr I voxel nw_total n0 = Min (insert 10000 (self_rR_candidates I voxel (nat \<lfloor>nw_total\<rfloor>) n0))"

section \<open>Properties of the minimum-image distances\<close>

text \<open>
  C8. For an orthorhombic cell with positive box lengths, \<open>dist_mic_squared\<close> is symmetric
  in its two points, and it is unchanged when both points are translated by the same
  integer combination \<open>k1\<close>, \<open>k2\<close>, \<open>k3\<close> of the three lattice vectors.
\<close>

theorem dist_mic_squared_symmetric_and_lattice_invariant:
  assumes "0 < b1" and "0 < b2" and "0 < b3"
  shows "dist_mic_squared x1 x2 x3 y1 y2 y3 b1 b2 b3 = dist_mic_squared y1 y2 y3 x1 x2 x3 b1 b2 b3
       \<and> dist_mic_squared (x1 + of_int k1 * b1) (x2 + of_int k2 * b2) (x3 + of_int k3 * b3)
           (y1 + of_int k1 * b1) (y2 + of_int k2 * b2) (y3 + of_int k3 * b3) b1 b2 b3
         = dist_mic_squared x1 x2 x3 y1 y2 y3 b1 b2 b3"
proof
  show "dist_mic_squared x1 x2 x3 y1 y2 y3 b1 b2 b3 = dist_mic_squared y1 y2 y3 x1 x2 x3 b1 b2 b3"
    using assms by (simp add: dist_mic_squared_def Let_def algebra_simps)
  show "dist_mic_squared (x1 + of_int k1 * b1) (x2 + of_int k2 * b2) (x3 + of_int k3 * b3)
           (y1 + of_int k1 * b1) (y2 + of_int k2 * b2) (y3 + of_int k3 * b3) b1 b2 b3
         = dist_mic_squared x1 x2 x3 y1 y2 y3 b1 b2 b3"
    by (simp add: dist_mic_squared_def)
qed

theorem dist_mic_squared_symmetric_and_lattice_invariant_witness:
  "(0::real) < 4 \<and> (0::real) < 5 \<and> (0::real) < 6
   \<and> dist_mic_squared 1 2 3 4 0 1 4 5 6 = dist_mic_squared 4 0 1 1 2 3 4 5 6
   \<and> dist_mic_squared (1 + of_int 2 * 4) (2 + of_int (- 1) * 5) (3 + of_int 3 * 6)
       (4 + of_int 2 * 4) (0 + of_int (- 1) * 5) (1 + of_int 3 * 6) 4 5 6
     = dist_mic_squared 1 2 3 4 0 1 4 5 6"
proof -
  have b: "(0::real) < 4" "(0::real) < 5" "(0::real) < 6"
    by simp_all
  from dist_mic_squared_symmetric_and_lattice_invariant
         [OF b, of 1 2 3 4 0 1 2 "- 1" 3]
  show ?thesis using b by blast
qed

subsection \<open>The 27-image search in a diagonal cell\<close>

lemma fold_nc_min:
  "fold (\<lambda>k n. if h k \<le> n then h k else n) nc = (\<lambda>n. if min3 h \<le> n then min3 h else n)"
  by (rule ext) (simp add: nc_def min3_def min_def)

lemma min3_add_left: "min3 (\<lambda>k. c + h k) = c + min3 h"
  by (simp add: min3_def min_def)

lemma min3_add_right: "min3 (\<lambda>k. h k + c) = min3 h + c"
  by (simp add: min3_def min_def)

lemma min3_le: "min3 h \<le> h 0"
  by (simp add: min3_def)

lemma fold_nc_separable:
  "fold (\<lambda>i. fold (\<lambda>j. fold (\<lambda>k n. if A i + B j + C k \<le> n then A i + B j + C k else n) nc) nc) nc n0
   = min (min3 A + min3 B + min3 C) n0"
proof -
  have inner: "fold (\<lambda>k n. if A i + B j + C k \<le> n then A i + B j + C k else n) nc
      = (\<lambda>n. if A i + B j + min3 C \<le> n then A i + B j + min3 C else n)" for i j
    by (simp add: fold_nc_min [of "\<lambda>k. A i + B j + C k"] min3_add_left cong: if_cong)
  have middle: "fold (\<lambda>j n. if A i + B j + min3 C \<le> n then A i + B j + min3 C else n) nc
      = (\<lambda>n. if A i + min3 B + min3 C \<le> n then A i + min3 B + min3 C else n)" for i
    by (simp add: fold_nc_min [of "\<lambda>j. A i + B j + min3 C"] min3_add_left min3_add_right
          cong: if_cong)
  have outer: "fold (\<lambda>i n. if A i + min3 B + min3 C \<le> n then A i + min3 B + min3 C else n) nc
      = (\<lambda>n. if min3 A + min3 B + min3 C \<le> n then min3 A + min3 B + min3 C else n)"
    by (simp add: fold_nc_min [of "\<lambda>i. A i + min3 B + min3 C"] min3_add_right cong: if_cong)
  show ?thesis
    unfolding inner middle outer by (simp add: min_def)
qed

lemma tric_diag:
  "dist_mic_tric_squared (x1, x2, x3) (y1, y2, y3) (diag_cell b1 b2 b3)
     (diag_cell (1 / b1) (1 / b2) (1 / b3))
   = min3 (axis_sq b1 x1 y1) + min3 (axis_sq b2 x2 y2) + min3 (axis_sq b3 x3 y3)"
proof -
  let ?A = "axis_sq b1 x1 y1" and ?B = "axis_sq b2 x2 y2" and ?C = "axis_sq b3 x3 y3"
  have "dist_mic_tric_squared (x1, x2, x3) (y1, y2, y3) (diag_cell b1 b2 b3)
          (diag_cell (1 / b1) (1 / b2) (1 / b3))
        = fold (\<lambda>i. fold (\<lambda>j. fold (\<lambda>k n.
              if ?A i + ?B j + ?C k \<le> n then ?A i + ?B j + ?C k else n) nc) nc) nc
            (?A 0 + ?B 0 + ?C 0)"
    by (simp add: dist_mic_tric_squared_def diag_cell_def Let_def axis_sq_def cong: if_cong)
  also have "\<dots> = min (min3 ?A + min3 ?B + min3 ?C) (?A 0 + ?B 0 + ?C 0)"
    by (rule fold_nc_separable)
  also have "\<dots> = min3 ?A + min3 ?B + min3 ?C"
    using min3_le [of ?A] min3_le [of ?B] min3_le [of ?C] by simp
  finally show ?thesis .
qed

lemma axis_nearest:
  assumes "- (1 / 2) \<le> d - of_int n" and "d - of_int n \<le> 1 / 2" and "- 1 < d" and "d < 1"
  shows "min3 (\<lambda>k. (d - k)\<^sup>2) = (d - of_int n)\<^sup>2"
proof -
  have "n = -1 \<or> n = 0 \<or> n = 1" using assms by linarith
  then show ?thesis using assms
    by (auto simp: min3_def min_def power2_eq_square algebra_simps)
qed

lemma axis_sq_mic:
  assumes b: "0 < b" and near: "\<bar>x - y\<bar> \<le> 3 / 2 * b"
  shows "min3 (axis_sq b x y) = mic1 b (x - y) * mic1 b (x - y)"
proof -
  define fu where "fu = x / b - of_int \<lfloor>x / b\<rfloor>"
  define fw where "fw = y / b - of_int \<lfloor>y / b\<rfloor>"
  define m where "m = \<lfloor>x / b\<rfloor> - \<lfloor>y / b\<rfloor>"
  have fu: "0 \<le> fu" "fu < 1" and fw: "0 \<le> fw" "fw < 1"
    unfolding fu_def fw_def by linarith+
  have xy: "x - y = b * (fu - fw + of_int m)"
    using b by (simp add: fu_def fw_def m_def field_simps)
  have "b * \<bar>fu - fw + of_int m\<bar> \<le> b * (3 / 2)"
    using near b unfolding xy by (simp add: abs_mult)
  then have "\<bar>fu - fw + of_int m\<bar> \<le> 3 / 2"
    using b by simp
  then have near': "- (3 / 2) \<le> fu - fw + of_int m" "fu - fw + of_int m \<le> 3 / 2"
    by linarith+
  have sq: "axis_sq b x y k = b\<^sup>2 * (fu - fw - k)\<^sup>2" for k
    by (simp add: axis_sq_def fu_def fw_def power2_eq_square algebra_simps)
  have min_sq: "min3 (axis_sq b x y) = b\<^sup>2 * min3 (\<lambda>k. (fu - fw - k)\<^sup>2)"
    unfolding sq by (simp add: min3_def min_def mult_le_cancel_left)
  have gt: "x - y > b / 2 \<longleftrightarrow> fu - fw + of_int m > 1 / 2"
    using mult_less_cancel_left_pos [OF b, of "1 / 2" "fu - fw + of_int m"] by (simp add: xy)
  have lt: "x - y < - b / 2 \<longleftrightarrow> fu - fw + of_int m < - 1 / 2"
    using mult_less_cancel_left_pos [OF b, of "fu - fw + of_int m" "- 1 / 2"] by (simp add: xy)
  obtain n :: int where n: "mic1 b (x - y) = b * (fu - fw - of_int n)"
      and close: "- (1 / 2) \<le> fu - fw - of_int n" "fu - fw - of_int n \<le> 1 / 2"
  proof (cases "fu - fw + of_int m > 1 / 2")
    case True
    then have "mic1 b (x - y) = b * (fu - fw - of_int (1 - m))"
      using gt by (simp add: mic1_def) (simp add: xy algebra_simps)
    moreover have "- (1 / 2) \<le> fu - fw - of_int (1 - m)" "fu - fw - of_int (1 - m) \<le> 1 / 2"
      using True near' by simp_all
    ultimately show ?thesis using that by blast
  next
    case hi: False
    show ?thesis
    proof (cases "fu - fw + of_int m < - 1 / 2")
      case True
      then have "mic1 b (x - y) = b * (fu - fw - of_int (- 1 - m))"
        using gt lt hi by (simp add: mic1_def) (simp add: xy algebra_simps)
      moreover have "- (1 / 2) \<le> fu - fw - of_int (- 1 - m)"
          "fu - fw - of_int (- 1 - m) \<le> 1 / 2"
        using True near' by simp_all
      ultimately show ?thesis using that by blast
    next
      case False
      then have "mic1 b (x - y) = b * (fu - fw - of_int (- m))"
        using gt lt hi by (simp add: mic1_def) (simp add: xy algebra_simps)
      moreover have "- (1 / 2) \<le> fu - fw - of_int (- m)" "fu - fw - of_int (- m) \<le> 1 / 2"
        using False hi by simp_all
      ultimately show ?thesis using that by blast
    qed
  qed
  have "min3 (\<lambda>k. (fu - fw - k)\<^sup>2) = (fu - fw - of_int n)\<^sup>2"
    using close fu fw by (intro axis_nearest) linarith+
  then have "min3 (axis_sq b x y) = b\<^sup>2 * (fu - fw - of_int n)\<^sup>2"
    by (simp only: min_sq)
  also have "\<dots> = mic1 b (x - y) * mic1 b (x - y)"
    by (simp only: n power2_eq_square) (simp add: algebra_simps)
  finally show ?thesis .
qed

lemma dist_mic_squared_mic1:
  "dist_mic_squared x1 x2 x3 y1 y2 y3 b1 b2 b3
   = mic1 b1 (x1 - y1) * mic1 b1 (x1 - y1) + mic1 b2 (x2 - y2) * mic1 b2 (x2 - y2)
     + mic1 b3 (x3 - y3) * mic1 b3 (x3 - y3)"
  by (simp add: dist_mic_squared_def mic1_def Let_def)

text \<open>
  C7, as the claim states it, fails: in the cubic cell of edge 4 the points \<open>(0, 0, 0)\<close> and
  \<open>(7, 0, 0)\<close> are at squared distance 1 for the 27-image search, which first wraps both
  points into the cell, and at squared distance 9 for the closed form, which wraps the
  difference once.
\<close>

theorem tric_ortho_disagree_counterexample:
  "dist_mic_tric_squared (0, 0, 0) (7, 0, 0) (diag_cell 4 4 4) (diag_cell (1 / 4) (1 / 4) (1 / 4)) = 1
   \<and> dist_mic_squared 0 0 0 7 0 0 4 4 4 = 9"
proof
  show "dist_mic_tric_squared (0, 0, 0) (7, 0, 0) (diag_cell 4 4 4)
          (diag_cell (1 / 4) (1 / 4) (1 / 4)) = 1"
    by (simp add: tric_diag min3_def axis_sq_def)
  show "dist_mic_squared 0 0 0 7 0 0 4 4 4 = 9"
    by (simp add: dist_mic_squared_def)
qed

text \<open>
  C7, amended. For a diagonal cell with positive box lengths, whose inverse is the diagonal
  matrix of the reciprocal lengths, \<open>dist_mic_tric_squared\<close> equals \<open>dist_mic_squared\<close>
  for every pair of points whose coordinates differ by at most one and a half box lengths
  on each axis.
\<close>

theorem tric_agrees_with_ortho_on_diagonal_cell:
  assumes "0 < b1" and "0 < b2" and "0 < b3"
    and "\<bar>x1 - y1\<bar> \<le> 3 / 2 * b1" and "\<bar>x2 - y2\<bar> \<le> 3 / 2 * b2" and "\<bar>x3 - y3\<bar> \<le> 3 / 2 * b3"
  shows "dist_mic_tric_squared (x1, x2, x3) (y1, y2, y3) (diag_cell b1 b2 b3)
           (diag_cell (1 / b1) (1 / b2) (1 / b3))
         = dist_mic_squared x1 x2 x3 y1 y2 y3 b1 b2 b3"
  using assms by (simp only: tric_diag dist_mic_squared_mic1 axis_sq_mic)

theorem tric_agrees_with_ortho_on_diagonal_cell_witness:
  "(0::real) < 4 \<and> (0::real) < 5 \<and> (0::real) < 6
   \<and> \<bar>1 - 4\<bar> \<le> 3 / 2 * (4::real) \<and> \<bar>2 - 0\<bar> \<le> 3 / 2 * (5::real) \<and> \<bar>3 - 9\<bar> \<le> 3 / 2 * (6::real)
   \<and> dist_mic_tric_squared (1, 2, 3) (4, 0, 9) (diag_cell 4 5 6)
       (diag_cell (1 / 4) (1 / 5) (1 / 6))
     = dist_mic_squared 1 2 3 4 0 9 4 5 6"
proof -
  have h: "(0::real) < 4" "(0::real) < 5" "(0::real) < 6"
    "\<bar>1 - 4\<bar> \<le> 3 / 2 * (4::real)" "\<bar>2 - 0\<bar> \<le> 3 / 2 * (5::real)" "\<bar>3 - 9\<bar> \<le> 3 / 2 * (6::real)"
    by simp_all
  from tric_agrees_with_ortho_on_diagonal_cell [OF h] show ?thesis
    using h by blast
qed

section \<open>Properties of the voxel assignment\<close>

lemma double_to_int_nonneg:
  "0 \<le> r \<Longrightarrow> r < 2 ^ 31 \<Longrightarrow> double_to_int r = Some \<lfloor>r\<rfloor>"
  unfolding double_to_int_def int_in_range_def Let_def
  by (simp add: floor_less_iff le_floor_iff)

lemma assign_water_origin:
  assumes "1 \<le> dx" "1 \<le> dy" "1 \<le> dz" "0 \<le> mx" "0 \<le> my" "0 \<le> mz"
  shows "assign_water (dx, dy, dz) (mx, my, mz) (ox, oy, oz) (ox, oy, oz) w = Some [(0, w)]"
  using assms by (simp add: double_to_int_def c_int_def int_in_range_def)

lemma assign_water_out_of_range:
  assumes "wx - ox < - 1.5 \<or> wy - oy < - 1.5 \<or> wz - oz < - 1.5
         \<or> wx - ox > mx \<or> wy - oy > my \<or> wz - oz > mz"
  shows "assign_water (dx, dy, dz) (mx, my, mz) (ox, oy, oz) (wx, wy, wz) w = Some []"
  using assms by auto

lemma assign_water_at_grid_max:
  assumes at_max: "(wx - ox = mx \<and> real_of_int dx \<le> 2 * mx)
                 \<or> (wy - oy = my \<and> real_of_int dy \<le> 2 * my)
                 \<or> (wz - oz = mz \<and> real_of_int dz \<le> 2 * mz)"
    and cast: "2 * mx < 2 ^ 31" "2 * my < 2 ^ 31" "2 * mz < 2 ^ 31"
  shows "assign_water (dx, dy, dz) (mx, my, mz) (ox, oy, oz) (wx, wy, wz) w = Some []"
proof (cases "wx - ox \<le> mx \<and> wy - oy \<le> my \<and> wz - oz \<le> mz
            \<and> 0 \<le> wx - ox \<and> 0 \<le> wy - oy \<and> 0 \<le> wz - oz")
  case True
  then have ix: "double_to_int (wx * 2 - ox * 2) = Some \<lfloor>wx * 2 - ox * 2\<rfloor>"
    and iy: "double_to_int (wy * 2 - oy * 2) = Some \<lfloor>wy * 2 - oy * 2\<rfloor>"
    and iz: "double_to_int (wz * 2 - oz * 2) = Some \<lfloor>wz * 2 - oz * 2\<rfloor>"
    using cast by (auto intro!: double_to_int_nonneg)
  have "\<not> (\<lfloor>wx * 2 - ox * 2\<rfloor> < dx \<and> \<lfloor>wy * 2 - oy * 2\<rfloor> < dy \<and> \<lfloor>wz * 2 - oz * 2\<rfloor> < dz)"
    using at_max by (auto simp: floor_less_iff)
  then show ?thesis
    using True by (auto simp: ix iy iz)
next
  case False
  then show ?thesis by (auto simp: Let_def)
qed

text \<open>
  C9, as the claim states it, fails: the range test is \<^verbatim>\<open>wat_translated_x <= grid_max_x\<close>,
  so a coordinate at exactly \<open>grid_max\<close> passes it. With five voxels per axis and
  \<open>grid_max = 1\<close> on each axis, the water at translated position \<open>(1, 1, 1)\<close> is assigned
  to voxel \<open>(2, 2, 2)\<close>, whose flattened index is 62.
\<close>

theorem assign_water_at_grid_max_counterexample:
  "assign_water (5, 5, 5) (1, 1, 1) (0, 0, 0) (1, 1, 1) 7 = Some [(62, 7)]"
  by (simp add: double_to_int_def c_int_def int_in_range_def)

text \<open>
  C9, amended. (1) On a grid with at least one voxel per axis and a non-negative
  \<open>grid_max\<close>, a water at the grid origin is assigned the flattened voxel index 0.
  (2) A water whose translated coordinate equals \<open>grid_max\<close> on an axis is rejected
  when \<open>grid_max\<close> on that axis is at least half the voxel count of the axis (its voxel
  index then reaches the count), provided the three casts to \<^verbatim>\<open>int\<close> are defined.
  (3) A water with a translated coordinate below \<open>-1.5\<close> or above \<open>grid_max\<close> on some
  axis is rejected.
\<close>

theorem assign_water_origin_grid_max_range:
  "(1 \<le> dx \<and> 1 \<le> dy \<and> 1 \<le> dz \<and> 0 \<le> mx \<and> 0 \<le> my \<and> 0 \<le> mz \<longrightarrow>
      assign_water (dx, dy, dz) (mx, my, mz) (ox, oy, oz) (ox, oy, oz) w = Some [(0, w)])
   \<and> (((wx - ox = mx \<and> real_of_int dx \<le> 2 * mx) \<or> (wy - oy = my \<and> real_of_int dy \<le> 2 * my)
        \<or> (wz - oz = mz \<and> real_of_int dz \<le> 2 * mz))
       \<and> 2 * mx < 2 ^ 31 \<and> 2 * my < 2 ^ 31 \<and> 2 * mz < 2 ^ 31 \<longrightarrow>
      assign_water (dx, dy, dz) (mx, my, mz) (ox, oy, oz) (wx, wy, wz) w = Some [])
   \<and> (wx - ox < - 1.5 \<or> wy - oy < - 1.5 \<or> wz - oz < - 1.5
       \<or> wx - ox > mx \<or> wy - oy > my \<or> wz - oz > mz \<longrightarrow>
      assign_water (dx, dy, dz) (mx, my, mz) (ox, oy, oz) (wx, wy, wz) w = Some [])"
  using assign_water_origin [of dx dy dz mx my mz ox oy oz w]
    assign_water_at_grid_max [of wx ox mx dx wy oy my dy wz oz mz dz w]
    assign_water_out_of_range [of wx ox wy oy wz oz mx my mz dx dy dz w]
  by blast

theorem assign_water_origin_grid_max_range_witness:
  "assign_water (5, 5, 5) (4, 4, 4) (1, 2, 3) (1, 2, 3) 7 = Some [(0, 7)]
   \<and> assign_water (5, 5, 5) (4, 4, 4) (1, 2, 3) (5, 2, 3) 7 = Some []
   \<and> assign_water (5, 5, 5) (4, 4, 4) (1, 2, 3) (- 1, 2, 3) 7 = Some []"
  using assign_water_origin_grid_max_range
          [where dx = 5 and dy = 5 and dz = 5 and mx = 4 and my = 4 and mz = 4
             and ox = 1 and oy = 2 and oz = 3 and w = 7 and wx = 5 and wy = 2 and wz = 3]
        assign_water_origin_grid_max_range
          [where dx = 5 and dy = 5 and dz = 5 and mx = 4 and my = 4 and mz = 4
             and ox = 1 and oy = 2 and oz = 3 and w = 7 and wx = "- 1" and wy = 2 and wz = 3]
  by simp

section \<open>Properties of the pairwise energy kernel\<close>

lemma foldM_append:
  "foldM f (xs @ ys) s = (case foldM f xs s of None \<Rightarrow> None | Some s' \<Rightarrow> foldM f ys s')"
  by (induction xs arbitrary: s) (auto split: option.splits)

lemma sqrt_pow6: "0 < d \<Longrightarrow> sqrt d ^ 6 = d * d * d"
proof -
  assume "0 < d"
  then have "sqrt d ^ 2 = d" by simp
  then have "(sqrt d ^ 2) ^ 3 = d ^ 3" by simp
  then show ?thesis by (simp add: power3_eq_cube flip: power_mult)
qed

lemma sqrt_pow12: "0 < d \<Longrightarrow> sqrt d ^ 12 = (d * d * d) * (d * d * d)"
proof -
  assume d: "0 < d"
  have "sqrt d ^ 12 = (sqrt d ^ 6) ^ 2" by (simp flip: power_mult)
  then show ?thesis using sqrt_pow6 [OF d] by (simp add: power2_eq_square)
qed

lemma energy_pair_step:
  assumes "(i, j) \<notin> P" and "int_in_range (wat + int i)"
    and "int j \<noteq> wat + int i \<longrightarrow> 0 < dist_array i j"
  shows "energy_pair dist_array bcoeff wat i j (pairs_done wat dist_array bcoeff P s)
         = Some (pairs_done wat dist_array bcoeff (insert (i, j) P) s)"
proof (cases "int j = wat + int i")
  case True
  have "pairs_done wat dist_array bcoeff (insert (i, j) P) s = pairs_done wat dist_array bcoeff P s"
    using True by (auto simp: pairs_done_def fun_eq_iff)
  then show ?thesis
    using True assms(2) by (simp add: energy_pair_def c_int_def)
next
  case False
  then have d: "0 < dist_array i j" using assms(3) by simp
  have neq: "wat + int i \<noteq> int j" using False by simp
  show ?thesis
    using assms(1,2) d neq False
    by (auto simp: energy_pair_def c_int_def fsqrt_def fdiv_def pairs_done_def Let_def fun_eq_iff
          sqrt_pow6 sqrt_pow12 field_simps)
qed

lemma pairs_done_empty: "pairs_done wat dist_array bcoeff {} s = s"
  by (simp add: pairs_done_def)

lemma energy_row:
  assumes "\<forall>j<T. (i, j) \<notin> P" and "int_in_range (wat + int i)"
    and "\<forall>j<T. int j \<noteq> wat + int i \<longrightarrow> 0 < dist_array i j"
  shows "foldM (energy_pair dist_array bcoeff wat i) [0..<T] (pairs_done wat dist_array bcoeff P s)
         = Some (pairs_done wat dist_array bcoeff (P \<union> {i} \<times> {..<T}) s)"
  using assms
proof (induction T)
  case 0
  then show ?case by simp
next
  case (Suc T)
  have ins: "insert (i, T) (P \<union> {i} \<times> {..<T}) = P \<union> {i} \<times> {..<Suc T}"
    by (auto simp: less_Suc_eq)
  have notin: "(i, T) \<notin> P \<union> {i} \<times> {..<T}" using Suc.prems by auto
  have "foldM (energy_pair dist_array bcoeff wat i) [0..<T] (pairs_done wat dist_array bcoeff P s)
        = Some (pairs_done wat dist_array bcoeff (P \<union> {i} \<times> {..<T}) s)"
    using Suc.prems by (intro Suc.IH) auto
  moreover have "energy_pair dist_array bcoeff wat i T
                   (pairs_done wat dist_array bcoeff (P \<union> {i} \<times> {..<T}) s)
        = Some (pairs_done wat dist_array bcoeff (P \<union> {i} \<times> {..<Suc T}) s)"
    using energy_pair_step [OF notin, of wat dist_array bcoeff s] Suc.prems by (simp add: ins)
  ultimately show ?case
    by (simp add: foldM_append)
qed

lemma energy_rows:
  assumes "\<forall>i<S. int_in_range (wat + int i)"
    and "\<forall>i<S. \<forall>j<T. int j \<noteq> wat + int i \<longrightarrow> 0 < dist_array i j"
  shows "calculate_energy wat S T dist_array bcoeff s
         = Some (pairs_done wat dist_array bcoeff ({..<S} \<times> {..<T}) s)"
  using assms unfolding calculate_energy_def
proof (induction S)
  case 0
  then show ?case by (simp add: pairs_done_empty)
next
  case (Suc S)
  have un: "{..<S} \<times> {..<T} \<union> {S} \<times> {..<T} = {..<Suc S} \<times> {..<T}"
    by (auto simp: less_Suc_eq)
  have notin: "\<forall>j<T. (S, j) \<notin> {..<S} \<times> {..<T}" by auto
  have "foldM (\<lambda>i. foldM (energy_pair dist_array bcoeff wat i) [0..<T]) [0..<S] s
        = Some (pairs_done wat dist_array bcoeff ({..<S} \<times> {..<T}) s)"
    using Suc.prems by (intro Suc.IH) auto
  moreover have "foldM (energy_pair dist_array bcoeff wat S) [0..<T]
                   (pairs_done wat dist_array bcoeff ({..<S} \<times> {..<T}) s)
        = Some (pairs_done wat dist_array bcoeff ({..<Suc S} \<times> {..<T}) s)"
    using energy_row [OF notin, of wat dist_array bcoeff s] Suc.prems by (simp add: un)
  ultimately show ?case
    by (simp add: foldM_append)
qed

text \<open>
  C10. Let the squared distance of every pair other than a self pair be positive, and let
  the atom indices \<open>wat + i\<close> fit in an \<^verbatim>\<open>int\<close>. Then \<open>calculate_energy\<close> returns, and for
  every site \<open>i\<close> and atom \<open>j\<close> with \<open>j \<noteq> wat + i\<close> the entry of \<open>acoeff\<close> has become
  \<open>A / d ^ 12 - B / d ^ 6\<close> and the entry of \<open>chg\<close> has become \<open>q / d\<close>, where \<open>d\<close> is the
  square root of the supplied squared distance; with \<open>A = 1\<close>, \<open>B = 0\<close>, \<open>q = 1\<close> and squared
  distance 1 both entries are 1; the entries of the self pair \<open>j = wat + i\<close> are unchanged
  (\<open>dist\<close> and \<open>bcoeff\<close> are never written).
\<close>

theorem calculate_energy_overwrites_all_but_self:
  assumes "\<forall>i<S. int_in_range (wat + int i)"
    and "\<forall>i<S. \<forall>j<T. int j \<noteq> wat + int i \<longrightarrow> 0 < dist_array i j"
  shows "\<exists>s'. calculate_energy wat S T dist_array bcoeff s = Some s'
       \<and> (\<forall>i<S. \<forall>j<T.
             (int j \<noteq> wat + int i \<longrightarrow>
                acoeff s' i j = acoeff s i j / (sqrt (dist_array i j)) ^ 12
                                - bcoeff i j / (sqrt (dist_array i j)) ^ 6
              \<and> chg s' i j = chg s i j / sqrt (dist_array i j)
              \<and> (acoeff s i j = 1 \<and> bcoeff i j = 0 \<and> chg s i j = 1 \<and> dist_array i j = 1
                   \<longrightarrow> acoeff s' i j = 1 \<and> chg s' i j = 1))
           \<and> (int j = wat + int i \<longrightarrow> acoeff s' i j = acoeff s i j \<and> chg s' i j = chg s i j))"
  using energy_rows [OF assms, of bcoeff s] by (simp add: pairs_done_def)

theorem calculate_energy_overwrites_all_but_self_witness:
  "int_in_range (0 + int 0) \<and> 0 < (1::real)
   \<and> (\<exists>s'. calculate_energy 0 1 2 (\<lambda>i j. 1) (\<lambda>i j. 0) \<lparr>acoeff = (\<lambda>i j. 1), chg = (\<lambda>i j. 1)\<rparr>
             = Some s'
           \<and> acoeff s' 0 1 = 1 \<and> chg s' 0 1 = 1 \<and> acoeff s' 0 0 = 1 \<and> chg s' 0 0 = 1)"
proof -
  have h1: "\<forall>i<1::nat. int_in_range (0 + int i)"
    by (simp add: int_in_range_def)
  have h2: "\<forall>i<1::nat. \<forall>j<2::nat. int j \<noteq> 0 + int i \<longrightarrow> 0 < (\<lambda>i j. 1::real) i j"
    by simp
  from calculate_energy_overwrites_all_but_self
         [OF h1 h2, of "\<lambda>i j. 0" "\<lparr>acoeff = (\<lambda>i j. 1), chg = (\<lambda>i j. 1)\<rparr>"]
  obtain s' where run: "calculate_energy 0 1 2 (\<lambda>i j. 1) (\<lambda>i j. 0)
                          \<lparr>acoeff = (\<lambda>i j. 1), chg = (\<lambda>i j. 1)\<rparr> = Some s'"
    and other: "acoeff s' 0 1 = 1 \<and> chg s' 0 1 = 1"
    and self: "acoeff s' 0 0 = 1 \<and> chg s' 0 0 = 1"
    by fastforce
  then show ?thesis using h1 by auto
qed

section \<open>Properties of the orientational estimator of one voxel\<close>

lemma euler_dW_sep: "euler_dW E n l = Some (euler_sep E n l)"
  by (simp add: euler_dW_def euler_sep_def fsqrt_def Let_def power2_eq_square)

lemma finite_or_candidates: "finite (or_candidates E N n)"
proof -
  have "or_candidates E N n \<subseteq> euler_sep E n ` {..<N}"
    by (auto simp: or_candidates_def)
  then show ?thesis by (rule finite_subset) simp
qed

lemma or_candidates_Suc:
  "or_candidates E (Suc N) n =
     (if N \<noteq> n \<and> 0 < euler_sep E n N then insert (euler_sep E n N) (or_candidates E N n)
      else or_candidates E N n)"
  by (auto simp: or_candidates_def less_Suc_eq)

lemma or_NNor_0: "or_NNor E 0 n = 10000"
  by (simp add: or_NNor_def or_candidates_def)

lemma or_NNor_Suc:
  "or_NNor E (Suc N) n =
     (if N \<noteq> n \<and> 0 < euler_sep E n N \<and> euler_sep E n N < or_NNor E N n then euler_sep E n N
      else or_NNor E N n)"
proof -
  have fin: "finite (insert 10000 (or_candidates E N n))"
    by (simp add: finite_or_candidates)
  have "Min (insert d (insert 10000 (or_candidates E N n))) = min d (or_NNor E N n)" for d
    unfolding or_NNor_def using fin by (subst Min_insert) auto
  then show ?thesis
    by (auto simp: or_NNor_def or_candidates_Suc insert_commute min_def)
qed

lemma or_NNor_pos: "0 < or_NNor E N n"
  by (induction N) (auto simp: or_NNor_0 or_NNor_Suc)

lemma or_NNor_less_iff:
  "or_NNor E N n < 9999 \<longleftrightarrow> (\<exists>l<N. l \<noteq> n \<and> 0 < euler_sep E n l \<and> euler_sep E n l < 9999)"
  unfolding or_NNor_def
  by (subst Min_less_iff) (auto simp: finite_or_candidates or_candidates_def)

lemma or_partner_loop:
  "foldM (or_partner E n) [0..<N] 10000 = Some (or_NNor E N n)"
proof (induction N)
  case 0
  show ?case by (simp add: or_NNor_0)
next
  case (Suc N)
  then show ?case
    by (simp add: foldM_append or_partner_def euler_dW_sep or_NNor_Suc)
qed

lemma or_water_eq:
  assumes "0 < N"
  shows "or_water N E n acc = Some (acc + or_term E N n)"
proof -
  have "0 < real N * or_NNor E N n * or_NNor E N n * or_NNor E N n / (3.0 * twopi)"
    using assms or_NNor_pos [of E N n] by (simp add: twopi_def)
  then show ?thesis
    using or_NNor_pos [of E N n]
    by (simp add: or_water_def or_partner_loop flog_def or_term_def twopi_def power3_eq_cube
          mult.assoc)
qed

lemma or_water_loop:
  assumes "0 < N"
  shows "foldM (or_water N E) [0..<M] acc = Some (acc + (\<Sum>n<M. or_term E N n))"
  by (induction M) (simp_all add: foldM_append or_water_eq [OF assms] add.assoc)

lemma getNNOrEntropy_sum:
  "getNNOrEntropy nwtot E = Some (\<Sum>n<nat nwtot. or_term E (nat nwtot) n)"
proof (cases "0 < nat nwtot")
  case True
  then show ?thesis
    by (simp add: getNNOrEntropy_def or_water_loop)
next
  case False
  then show ?thesis by (simp add: getNNOrEntropy_def)
qed

lemma upt_2: "[0..<2] = [0, Suc 0]"
  by (simp add: upt_rec)

lemma pi_small: "pi < 5" "1 < pi" "2 * pi < 20000"
  using pi_less_4 pi_ge_two by linarith+

lemma near_run: "getNNOrEntropy 2 near_eulers = Some (ln (1 / (3 * pi)) + ln (1 / (3 * pi)))"
  using pi_small
  by (simp add: getNNOrEntropy_def upt_2 or_water_def or_partner_def euler_dW_def wrap_angle_def
        near_eulers_def fsqrt_def flog_def twopi_def)

lemma far_sep: "euler_dW far_eulers 0 1 = Some (20000 - 2 * pi)"
  using pi_small
  by (simp add: euler_dW_def wrap_angle_def far_eulers_def fsqrt_def twopi_def)

lemma far_search: "foldM (or_partner far_eulers 0) [0..<2] 10000 = Some 10000"
  using pi_small
  by (simp add: upt_2 or_partner_def euler_dW_def wrap_angle_def far_eulers_def fsqrt_def
        twopi_def)

lemma far_run: "getNNOrEntropy 2 far_eulers = Some 0"
  using pi_small
  by (simp add: getNNOrEntropy_def upt_2 or_water_def or_partner_def euler_dW_def wrap_angle_def
        far_eulers_def fsqrt_def flog_def twopi_def)

lemma far_term: "0 < ln (2 * (20000 - 2 * pi) ^ 3 / (3 * (2 * pi)))"
proof -
  have d: "10 < 20000 - 2 * pi" using pi_small by linarith
  have "(10::real) ^ 3 < (20000 - 2 * pi) ^ 3"
    using d by (intro power_strict_mono) simp_all
  then have "3 * (2 * pi) < 2 * (20000 - 2 * pi) ^ 3"
    using pi_small by simp
  then have "1 < 2 * (20000 - 2 * pi) ^ 3 / (3 * (2 * pi))"
    using pi_small by (simp add: field_simps)
  then show ?thesis by (rule ln_gt_zero)
qed

text \<open>
  C5, as the claim states it, fails when the only partner is at a separation of 10000 or
  more: for two waters whose second angles differ by 20000 the separation is
  \<open>20000 - 2 * pi\<close>, which is positive, yet the search leaves the sentinel at 10000 and
  the function returns 0, although the term \<open>ln (N * NNor ^ 3 / (3 * 2 * pi))\<close> of that
  separation is positive.
\<close>

theorem getNNOrEntropy_far_partner_counterexample:
  "euler_dW far_eulers 0 1 = Some (20000 - 2 * pi) \<and> 0 < 20000 - 2 * pi
   \<and> foldM (or_partner far_eulers 0) [0..<2] 10000 = Some 10000
   \<and> getNNOrEntropy 2 far_eulers = Some 0
   \<and> 0 < ln (2 * (20000 - 2 * pi) ^ 3 / (3 * (2 * pi)))"
  using far_sep far_search far_run far_term pi_small by simp

text \<open>
  C5, amended. \<open>getNNOrEntropy\<close> returns the sum over the waters \<open>n\<close> of the voxel of the
  terms \<open>or_term\<close>. For each water, \<open>NNor\<close> is the least of the sentinel 10000 and the
  strictly positive separations \<open>euler_sep\<close> (the Euclidean norm of the difference of the
  cosines of the first angles and of the two wrapped differences of the other angles) from
  the other waters; the term \<open>ln (N * NNor ^ 3 / (3 * 2 * pi))\<close> is added exactly when some
  other water lies at a separation strictly between 0 and 9999, and nothing is added
  otherwise. For a voxel with a single water the sentinel stays at 10000 and the sum is 0.
\<close>

theorem getNNOrEntropy_minimum_below_sentinel:
  "getNNOrEntropy nwtot E = Some (\<Sum>n<nat nwtot. or_term E (nat nwtot) n)
   \<and> (\<forall>n l. euler_dW E n l = Some (euler_sep E n l))
   \<and> (\<forall>n. foldM (or_partner E n) [0..<nat nwtot] 10000
           = Some (Min (insert 10000 {d. \<exists>l<nat nwtot. l \<noteq> n \<and> d = euler_sep E n l \<and> 0 < d})))
   \<and> (\<forall>n acc. 0 < nat nwtot \<longrightarrow>
         or_water (nat nwtot) E n acc
         = Some (if \<exists>l<nat nwtot. l \<noteq> n \<and> 0 < euler_sep E n l \<and> euler_sep E n l < 9999
                 then acc + ln (real (nat nwtot)
                     * (Min (insert 10000 {d. \<exists>l<nat nwtot. l \<noteq> n \<and> d = euler_sep E n l \<and> 0 < d})) ^ 3
                     / (3 * (2 * pi)))
                 else acc))
   \<and> (nwtot = 1 \<longrightarrow>
         foldM (or_partner E 0) [0..<1] 10000 = Some 10000 \<and> getNNOrEntropy nwtot E = Some 0)"
proof (intro conjI allI impI)
  show "getNNOrEntropy nwtot E = Some (\<Sum>n<nat nwtot. or_term E (nat nwtot) n)"
    by (rule getNNOrEntropy_sum)
  show "euler_dW E n l = Some (euler_sep E n l)" for n l
    by (rule euler_dW_sep)
  show "foldM (or_partner E n) [0..<nat nwtot] 10000
        = Some (Min (insert 10000 {d. \<exists>l<nat nwtot. l \<noteq> n \<and> d = euler_sep E n l \<and> 0 < d}))" for n
    using or_partner_loop [of E n "nat nwtot"] by (simp add: or_NNor_def or_candidates_def)
  show "or_water (nat nwtot) E n acc
        = Some (if \<exists>l<nat nwtot. l \<noteq> n \<and> 0 < euler_sep E n l \<and> euler_sep E n l < 9999
                then acc + ln (real (nat nwtot)
                    * (Min (insert 10000 {d. \<exists>l<nat nwtot. l \<noteq> n \<and> d = euler_sep E n l \<and> 0 < d})) ^ 3
                    / (3 * (2 * pi)))
                else acc)" if "0 < nat nwtot" for n acc
  proof -
    let ?near = "\<exists>l<nat nwtot. l \<noteq> n \<and> 0 < euler_sep E n l \<and> euler_sep E n l < 9999"
    have least: "or_NNor E (nat nwtot) n
        = Min (insert 10000 {d. \<exists>l<nat nwtot. l \<noteq> n \<and> d = euler_sep E n l \<and> 0 < d})"
      by (simp add: or_NNor_def or_candidates_def)
    have run: "or_water (nat nwtot) E n acc = Some (acc + or_term E (nat nwtot) n)"
      by (rule or_water_eq [OF that])
    show ?thesis
    proof (cases ?near)
      case True
      then have "or_NNor E (nat nwtot) n < 9999"
        using or_NNor_less_iff [of E "nat nwtot" n] by blast
      then have "or_term E (nat nwtot) n
          = ln (real (nat nwtot) * (or_NNor E (nat nwtot) n) ^ 3 / (3 * (2 * pi)))"
        by (simp add: or_term_def)
      then show ?thesis
        unfolding run least [symmetric] using True by (simp only: if_True)
    next
      case False
      then have "\<not> or_NNor E (nat nwtot) n < 9999"
        using or_NNor_less_iff [of E "nat nwtot" n] by blast
      then have "or_term E (nat nwtot) n = 0"
        by (simp add: or_term_def)
      then show ?thesis
        unfolding run using False by (simp only: if_False add_0_right)
    qed
  qed
  show "foldM (or_partner E 0) [0..<1] 10000 = Some 10000" if "nwtot = 1"
    by (simp add: or_partner_def)
  show "getNNOrEntropy nwtot E = Some 0" if "nwtot = 1"
    using that by (simp add: getNNOrEntropy_def or_water_def or_partner_def)
qed

theorem getNNOrEntropy_minimum_below_sentinel_witness:
  "getNNOrEntropy 1 near_eulers = Some 0
   \<and> foldM (or_partner near_eulers 0) [0..<1] 10000 = Some 10000
   \<and> (0::nat) < nat 2
   \<and> (\<Sum>n<nat 2. or_term near_eulers (nat 2) n) = ln (1 / (3 * pi)) + ln (1 / (3 * pi))"
proof -
  note one = getNNOrEntropy_minimum_below_sentinel [of 1 near_eulers]
  note two = getNNOrEntropy_minimum_below_sentinel [of 2 near_eulers]
  have single: "foldM (or_partner near_eulers 0) [0..<1] 10000 = Some 10000
                \<and> getNNOrEntropy 1 near_eulers = Some 0"
    by (rule one [THEN conjunct2, THEN conjunct2, THEN conjunct2, THEN conjunct2, rule_format])
      (rule refl)
  have "getNNOrEntropy 2 near_eulers = Some (\<Sum>n<nat 2. or_term near_eulers (nat 2) n)"
    by (rule two [THEN conjunct1])
  then have "(\<Sum>n<nat 2. or_term near_eulers (nat 2) n) = ln (1 / (3 * pi)) + ln (1 / (3 * pi))"
    by (simp only: near_run option.inject)
  then show ?thesis
    using single by simp
qed

section \<open>Properties of the grid indexing\<close>

lemma u32_id: "0 \<le> x \<Longrightarrow> x < 2 ^ 32 \<Longrightarrow> u32 x = x"
  by (simp add: u32_def)

lemma u32_range: "0 \<le> u32 x" "u32 x < 2 ^ 32"
  by (simp_all add: u32_def)

lemma grid_strides:
  assumes dims: "1 \<le> nx" "1 \<le> ny" "1 \<le> (nz::int)"
  shows "1 \<le> ny * nz" and "nz \<le> ny * nz" and "ny * nz \<le> nx * ny * nz"
    and "nz * (ny - 1) = ny * nz - nz" and "ny \<le> ny * nz" and "nx \<le> nx * ny * nz"
proof -
  show 1: "1 \<le> ny * nz"
    using mult_mono [of 1 ny 1 nz] dims by simp
  show "nz \<le> ny * nz"
    using mult_right_mono [of 1 ny nz] dims by simp
  show "ny * nz \<le> nx * ny * nz"
    using mult_right_mono [of 1 nx "ny * nz"] dims 1 by (simp add: mult.assoc)
  show "nz * (ny - 1) = ny * nz - nz"
    by (simp add: algebra_simps)
  show "ny \<le> ny * nz"
    using mult_left_mono [of 1 nz ny] dims by simp
  show "nx \<le> nx * ny * nz"
    using mult_left_mono [of 1 "ny * nz" nx] dims 1 by (simp add: mult.assoc)
qed

lemma div_stride_bound:
  assumes A: "1 \<le> (A::int)" and v: "0 \<le> v" "v < nx * A"
  shows "0 \<le> v div A" and "v div A \<le> nx - 1" and "v div A * A \<le> v"
    and "v div A * A \<le> (nx - 1) * A" and "0 \<le> v div A * A"
proof -
  have split: "v = v div A * A + v mod A" by simp
  have rem: "0 \<le> v mod A" "v mod A < A" using A by simp_all
  show nonneg: "0 \<le> v div A" using A v by (simp add: pos_imp_zdiv_nonneg_iff)
  show "0 \<le> v div A * A" using nonneg A by simp
  show below: "v div A * A \<le> v" using split rem by linarith
  have "\<not> nx \<le> v div A"
  proof
    assume "nx \<le> v div A"
    then have "nx * A \<le> v div A * A" using A by (intro mult_right_mono) simp_all
    then show False using below v by linarith
  qed
  then show le: "v div A \<le> nx - 1" by simp
  show "v div A * A \<le> (nx - 1) * A"
    using le A by (intro mult_right_mono) simp_all
qed

lemma boundary_no_overflow:
  assumes dims: "1 \<le> nx" "1 \<le> ny" "1 \<le> nz"
    and small: "nx * ny * nz < 2 ^ 32"
    and v: "0 \<le> voxel" "voxel < nx * ny * nz"
  shows "boundary nx ny nz voxel =
         Some (voxel mod nz = nz - 1
               \<or> (ny = 1 \<or> voxel mod (nz * (ny - 1) + voxel div (ny * nz) * (ny * nz)) < nz)
               \<or> ny * nz * (nx - 1) \<le> voxel
               \<or> voxel mod nz = 0 \<or> voxel mod (ny * nz) < nz \<or> voxel < ny * nz)"
proof -
  define A where "A = ny * nz"
  define Q where "Q = nx * A"
  have P: "nx * ny * nz = Q" by (simp add: Q_def A_def mult.assoc)
  have A1: "1 \<le> A" and nzA: "nz \<le> A" and nyA: "ny \<le> A" and AQ: "A \<le> Q" and nxQ: "nx \<le> Q"
    and yz: "nz * (ny - 1) = A - nz"
    using grid_strides [OF dims] by (simp_all add: A_def Q_def mult.assoc)
  have Q: "Q < 2 ^ 32" "voxel < Q" using small v by (simp_all add: P)
  note dv = div_stride_bound [OF A1 v(1) Q(2) [unfolded Q_def]]
  have dvQ: "voxel div A * A \<le> Q - A"
    using dv(4) by (simp add: Q_def algebra_simps)
  have uA: "u32 (ny * nz) = A"
    unfolding A_def [symmetric] using A1 AQ Q by (intro u32_id) linarith+
  have unz: "u32 (nz - 1) = nz - 1"
    using dims nzA AQ Q by (intro u32_id) linarith+
  have uny: "u32 (ny - 1) = ny - 1"
    using dims nyA AQ Q by (intro u32_id) linarith+
  have unx: "u32 (nx - 1) = nx - 1"
    using dims nxQ Q by (intro u32_id) linarith+
  have u1: "u32 (nz * (ny - 1)) = A - nz"
    unfolding yz using dims nzA AQ Q by (intro u32_id) linarith+
  have u2: "u32 (voxel div A * A) = voxel div A * A"
    using dv v Q by (intro u32_id) linarith+
  have u3: "u32 (A - nz + voxel div A * A) = A - nz + voxel div A * A"
    using dvQ dv nzA dims Q by (intro u32_id) linarith+
  have AQ': "A * (nx - 1) = Q - A"
    by (simp add: Q_def algebra_simps)
  have u4: "u32 (A * (nx - 1)) = Q - A"
    unfolding AQ' using A1 AQ Q by (intro u32_id) linarith+
  have u5: "u32 (A * nx) = Q"
    using Q A1 AQ by (simp add: Q_def [symmetric] mult.commute [of A nx] u32_id)
  have pos: "ny \<noteq> 1 \<Longrightarrow> A - nz + voxel div A * A \<noteq> 0"
  proof -
    assume "ny \<noteq> 1"
    then have "2 \<le> ny" using dims by simp
    then have "2 * nz \<le> ny * nz" using dims by (intro mult_right_mono) simp_all
    then have "2 * nz \<le> A" by (simp add: A_def)
    then show ?thesis using dv(5) dims by linarith
  qed
  have "boundary nx ny nz voxel =
        Some (voxel mod nz = nz - 1
               \<or> (ny = 1 \<or> voxel mod (A - nz + voxel div A * A) < nz)
               \<or> Q - A \<le> voxel
               \<or> voxel mod nz = 0 \<or> voxel mod A < nz \<or> voxel < A)"
    using dims v A1 pos Q
    unfolding boundary_def uA Let_def unz uny unx u1 u2 u3 u4 u5
    by auto
  then show ?thesis
    unfolding yz [symmetric] AQ' [symmetric] by (simp add: A_def mult.commute)
qed


lemma not_boundary_interior:
  assumes dims: "1 \<le> nx" "1 \<le> ny" "1 \<le> nz"
    and small: "nx * ny * nz < 2 ^ 32"
    and v: "0 \<le> voxel" "voxel < nx * ny * nz"
    and nb: "boundary nx ny nz voxel = Some False"
  shows "interior nx ny nz voxel"
proof -
  define A where "A = ny * nz"
  define ix where "ix = voxel div A"
  define r where "r = voxel mod A"
  define iy where "iy = r div nz"
  define iz where "iz = r mod nz"
  have A1: "1 \<le> A" and nzA: "nz \<le> A" and yz: "nz * (ny - 1) = A - nz"
    using grid_strides [OF dims] by (simp_all add: A_def)
  have Q: "voxel < nx * A" using v by (simp add: A_def mult.assoc)
  note dv = div_stride_bound [OF A1 v(1) Q, folded ix_def]
  from nb have flags:
    "voxel mod nz \<noteq> nz - 1" "ny \<noteq> 1" "\<not> voxel mod (A - nz + ix * A) < nz"
    "\<not> A * (nx - 1) \<le> voxel" "voxel mod nz \<noteq> 0" "\<not> voxel mod A < nz" "\<not> voxel < A"
    unfolding boundary_no_overflow [OF dims small v] yz A_def [symmetric] ix_def [symmetric]
    by simp_all
  have vr: "voxel = ix * A + r" by (simp add: ix_def r_def)
  have r: "0 \<le> r" "r < A" using A1 by (simp_all add: r_def)
  have ryz: "r = iy * nz + iz" by (simp add: iy_def iz_def)
  have iz: "0 \<le> iz" "iz < nz" using dims by (simp_all add: iz_def)
  have "iz = voxel mod nz"
    unfolding iz_def r_def A_def by (simp add: mod_mod_cancel)
  then have iz1: "1 \<le> iz" and iz2: "iz + 2 \<le> nz"
    using flags(1,5) iz by simp_all
  have r_ge: "nz \<le> r" using flags(6) by (simp add: r_def)
  have iy1: "1 \<le> iy"
  proof (rule ccontr)
    assume "\<not> 1 \<le> iy"
    then have "iy \<le> 0" by simp
    then have "iy * nz \<le> 0" using dims by (simp add: mult_le_0_iff)
    then show False using ryz iz r_ge by linarith
  qed
  have two: "2 * nz \<le> A"
  proof -
    have "2 \<le> ny" using flags(2) dims by simp
    then have "2 * nz \<le> ny * nz" using dims by (intro mult_right_mono) simp_all
    then show ?thesis by (simp add: A_def)
  qed
  have r_lt: "r < A - nz"
  proof (rule ccontr)
    assume "\<not> r < A - nz"
    then have lo: "0 \<le> r - (A - nz)" and hi: "r - (A - nz) < nz"
      using r by simp_all
    have M: "nz \<le> A - nz + ix * A" using two dv(5) by linarith
    have "voxel mod (A - nz + ix * A) = (voxel - (A - nz + ix * A)) mod (A - nz + ix * A)"
      by simp
    also have "voxel - (A - nz + ix * A) = r - (A - nz)" by (simp add: vr)
    also have "(r - (A - nz)) mod (A - nz + ix * A) = r - (A - nz)"
      using lo hi M by (intro mod_pos_pos_trivial) linarith+
    finally show False using flags(3) hi by simp
  qed
  have iy2: "iy + 2 \<le> ny"
  proof (rule ccontr)
    assume "\<not> iy + 2 \<le> ny"
    then have "ny - 1 \<le> iy" by simp
    then have "(ny - 1) * nz \<le> iy * nz" using dims by (intro mult_right_mono) simp_all
    then have "A - nz \<le> iy * nz" by (simp add: A_def algebra_simps)
    then show False using r_lt ryz iz by linarith
  qed
  have ix1: "1 \<le> ix"
  proof (rule ccontr)
    assume "\<not> 1 \<le> ix"
    then have "ix \<le> 0" by simp
    then have "ix * A \<le> 0" using A1 by (simp add: mult_le_0_iff)
    then show False using vr r flags(7) by linarith
  qed
  have ix2: "ix + 2 \<le> nx"
  proof (rule ccontr)
    assume "\<not> ix + 2 \<le> nx"
    then have "nx - 1 \<le> ix" by simp
    then have "(nx - 1) * A \<le> ix * A" using A1 by (intro mult_right_mono) simp_all
    then have "(nx - 1) * A \<le> voxel" using vr r by linarith
    then have "A * (nx - 1) \<le> voxel" by (simp only: mult.commute [of A])
    then show False using flags(4) by simp
  qed
  have "voxel = (ix * ny + iy) * nz + iz"
    unfolding vr ryz A_def by (simp add: algebra_simps)
  then show ?thesis
    unfolding interior_def using ix1 ix2 iy1 iy2 iz1 iz2 by blast
qed


lemma interior_bounds:
  assumes "1 \<le> ix" "ix + 2 \<le> nx" "1 \<le> iy" "iy + 2 \<le> ny" "1 \<le> iz" "iz + 2 \<le> (nz::int)"
    and "voxel = (ix * ny + iy) * nz + iz"
    and A: "A = ny * nz" and Q: "Q = nx * ny * nz"
  shows "A + nz + 1 \<le> voxel" and "voxel + A + nz + 2 \<le> Q" and "3 \<le> nz" and "3 * nz \<le> A"
proof -
  have nz3: "3 \<le> nz" and ny3: "3 \<le> ny" using assms by simp_all
  show "3 \<le> nz" by (rule nz3)
  show A3: "3 * nz \<le> A" unfolding A using ny3 nz3 by (intro mult_right_mono) simp_all
  have v: "voxel = ix * A + iy * nz + iz"
    using assms(7) by (simp add: A algebra_simps)
  have "1 * A \<le> ix * A" using assms(1) A3 nz3 by (intro mult_right_mono) simp_all
  moreover have "1 * nz \<le> iy * nz" using assms(3) nz3 by (intro mult_right_mono) simp_all
  ultimately show "A + nz + 1 \<le> voxel"
    using assms(5) unfolding v by linarith
  have "ix * A \<le> (nx - 2) * A" using assms(2) A3 nz3 by (intro mult_right_mono) simp_all
  moreover have "iy * nz \<le> (ny - 2) * nz" using assms(4) nz3 by (intro mult_right_mono) simp_all
  moreover have "(nx - 2) * A = Q - 2 * A" "(ny - 2) * nz = A - 2 * nz"
    by (simp_all add: A Q algebra_simps)
  ultimately show "voxel + A + nz + 2 \<le> Q"
    using assms(6) unfolding v by linarith
qed

lemma nbr_voxels_plain:
  assumes A: "A = ny * nz"
    and f: "A + nz + 1 \<le> voxel" "voxel + A + nz + 2 \<le> Q" "3 \<le> nz" "3 * nz \<le> A" "Q < 2 ^ 32"
  shows "nbr_voxels nx ny nz voxel =
      [voxel + 1, voxel + nz, voxel + A, voxel - 1, voxel - nz, voxel - A,
       voxel + 1 + nz, voxel + 1 - nz, voxel + 1 + nz, voxel + 1 - nz,
       voxel - 1 + nz, voxel - 1 - nz,
       voxel + 1 + A, voxel + 1 - A, voxel - 1 + A, voxel - 1 - A,
       voxel + nz + A, voxel + nz - A, voxel - nz + A, voxel - nz - A]"
proof -
  have uA: "u32 A = A"
    using f by (intro u32_id) linarith+
  have s1: "u32 (voxel + 1) = voxel + 1" "u32 (voxel + nz) = voxel + nz" "u32 (voxel + A) = voxel + A"
    "u32 (voxel - 1) = voxel - 1" "u32 (voxel - nz) = voxel - nz" "u32 (voxel - A) = voxel - A"
    using f by (auto intro!: u32_id)
  have s2: "u32 (voxel + 1 + nz) = voxel + 1 + nz" "u32 (voxel + 1 - nz) = voxel + 1 - nz"
    "u32 (voxel - 1 + nz) = voxel - 1 + nz" "u32 (voxel - 1 - nz) = voxel - 1 - nz"
    "u32 (voxel + 1 + A) = voxel + 1 + A" "u32 (voxel + 1 - A) = voxel + 1 - A"
    "u32 (voxel - 1 + A) = voxel - 1 + A" "u32 (voxel - 1 - A) = voxel - 1 - A"
    "u32 (voxel + nz + A) = voxel + nz + A" "u32 (voxel + nz - A) = voxel + nz - A"
    "u32 (voxel - nz + A) = voxel - nz + A" "u32 (voxel - nz - A) = voxel - nz - A"
    using f by (auto intro!: u32_id)
  show ?thesis
    unfolding nbr_voxels_def Let_def A [symmetric] uA s1 s2 by (rule refl)
qed

lemma boundary_13: "boundary 3 3 3 13 = Some False"
  by (simp add: boundary_def u32_def Let_def)

text \<open>
  C4. On a grid with at least one voxel per axis, for a voxel index below \<open>nx * ny * nz\<close>
  whose boundary predicate evaluates to false, every neighbour voxel index that the
  estimator reads (each entry of \<open>nbr_voxels\<close>, computed in \<^verbatim>\<open>unsigned int\<close>
  arithmetic) lies in \<open>[0, nx * ny * nz)\<close>.
\<close>

theorem neighbour_indices_in_range:
  assumes dims: "1 \<le> nx" "1 \<le> ny" "1 \<le> nz"
    and v: "0 \<le> voxel" "voxel < nx * ny * nz"
    and nb: "boundary nx ny nz voxel = Some False"
  shows "\<forall>i \<in> set (nbr_voxels nx ny nz voxel). 0 \<le> i \<and> i < nx * ny * nz"
proof (cases "nx * ny * nz < 2 ^ 32")
  case True
  define A where "A = ny * nz"
  define Q where "Q = nx * ny * nz"
  from not_boundary_interior [OF dims True v nb]
  obtain ix iy iz where c: "1 \<le> ix" "ix + 2 \<le> nx" "1 \<le> iy" "iy + 2 \<le> ny" "1 \<le> iz" "iz + 2 \<le> nz"
      "voxel = (ix * ny + iy) * nz + iz"
    unfolding interior_def by blast
  note b = interior_bounds [OF c A_def Q_def]
  have small: "Q < 2 ^ 32" using True by (simp add: Q_def)
  have "\<forall>i \<in> set (nbr_voxels nx ny nz voxel). 0 \<le> i \<and> i < Q"
    unfolding nbr_voxels_plain [OF A_def b small] using b by simp
  then show ?thesis by (simp only: Q_def)
next
  case False
  then have big: "2 ^ 32 \<le> nx * ny * nz" by simp
  have "0 \<le> u32 k \<and> u32 k < nx * ny * nz" for k
    using u32_range [of k] big by linarith
  then show ?thesis
    by (simp add: nbr_voxels_def Let_def)
qed

theorem neighbour_indices_in_range_witness:
  "(1::int) \<le> 3 \<and> (0::int) \<le> 13 \<and> (13::int) < 3 * 3 * 3 \<and> boundary 3 3 3 13 = Some False
   \<and> list_all (\<lambda>i. 0 \<le> i \<and> i < 3 * 3 * 3) (nbr_voxels 3 3 3 13)"
proof -
  have h: "(1::int) \<le> 3" "(0::int) \<le> 13" "(13::int) < 3 * 3 * 3"
    by simp_all
  from neighbour_indices_in_range [OF h(1) h(1) h(1) h(2) h(3) boundary_13]
  have "list_all (\<lambda>i. 0 \<le> i \<and> i < 3 * 3 * 3) (nbr_voxels 3 3 3 13)"
    by (simp only: list_all_iff)
  then show ?thesis using h boundary_13 by blast
qed

lemma card_offsets:
  "card face_offsets = 6" "card face_diagonal_offsets = 12" "card corner_offsets = 8"
  by (simp_all add: face_offsets_def face_diagonal_offsets_def corner_offsets_def)

lemma interior_scan:
  assumes c: "1 \<le> ix" "ix + 2 \<le> nx" "1 \<le> iy" "iy + 2 \<le> ny" "1 \<le> iz" "iz + 2 \<le> nz"
      "voxel = (ix * ny + iy) * nz + iz"
    and small: "nx * ny * nz < 2 ^ 32"
  shows "set (nbr_voxels nx ny nz voxel)
         = voxel_at ny nz (ix, iy, iz) ` (face_offsets \<union> face_diagonal_offsets)"
    and "\<forall>d \<in> corner_offsets. voxel_at ny nz (ix, iy, iz) d \<notin> set (nbr_voxels nx ny nz voxel)"
    and "card (set (nbr_voxels nx ny nz voxel)) = 18"
proof -
  define A where "A = ny * nz"
  define Q where "Q = nx * ny * nz"
  note b = interior_bounds [OF c A_def Q_def]
  have Q: "Q < 2 ^ 32" using small by (simp add: Q_def)
  have at: "voxel_at ny nz (ix, iy, iz) (dx, dy, dz) = voxel + dx * A + dy * nz + dz" for dx dy dz
    unfolding c(7) A_def by (simp add: algebra_simps)
  note nbrs = nbr_voxels_plain [OF A_def b Q]
  show "set (nbr_voxels nx ny nz voxel)
        = voxel_at ny nz (ix, iy, iz) ` (face_offsets \<union> face_diagonal_offsets)"
    unfolding nbrs face_offsets_def face_diagonal_offsets_def
    by (simp add: at del: voxel_at.simps) (auto simp: algebra_simps)
  show "\<forall>d \<in> corner_offsets. voxel_at ny nz (ix, iy, iz) d \<notin> set (nbr_voxels nx ny nz voxel)"
    unfolding nbrs corner_offsets_def using b(3,4) by (simp add: at del: voxel_at.simps)
  have "distinct [voxel + 1, voxel + nz, voxel + A, voxel - 1, voxel - nz, voxel - A,
       voxel + 1 + nz, voxel + 1 - nz, voxel - 1 + nz, voxel - 1 - nz,
       voxel + 1 + A, voxel + 1 - A, voxel - 1 + A, voxel - 1 - A,
       voxel + nz + A, voxel + nz - A, voxel - nz + A, voxel - nz - A]"
    using b(3,4) by simp
  then have "card (set [voxel + 1, voxel + nz, voxel + A, voxel - 1, voxel - nz, voxel - A,
       voxel + 1 + nz, voxel + 1 - nz, voxel - 1 + nz, voxel - 1 - nz,
       voxel + 1 + A, voxel + 1 - A, voxel - 1 + A, voxel - 1 - A,
       voxel + nz + A, voxel + nz - A, voxel - nz + A, voxel - nz - A]) = 18"
    by (simp only: distinct_card) simp
  moreover have "set (nbr_voxels nx ny nz voxel)
      = set [voxel + 1, voxel + nz, voxel + A, voxel - 1, voxel - nz, voxel - A,
       voxel + 1 + nz, voxel + 1 - nz, voxel - 1 + nz, voxel - 1 - nz,
       voxel + 1 + A, voxel + 1 - A, voxel - 1 + A, voxel - 1 - A,
       voxel + nz + A, voxel + nz - A, voxel - nz + A, voxel - nz - A]"
    unfolding nbrs by auto
  ultimately show "card (set (nbr_voxels nx ny nz voxel)) = 18"
    by (simp only:)
qed

lemma nbr_voxels_13:
  "nbr_voxels 3 3 3 13 = [14, 16, 22, 12, 10, 4, 17, 11, 17, 11, 15, 9, 23, 5, 21, 3, 25, 7, 19, 1]"
  by (simp add: nbr_voxels_def u32_def)

text \<open>
  C1, as the claim states it, fails in the number of face-diagonal neighbours: around the
  centre voxel 13 of a grid of 3 by 3 by 3 voxels, which is not a boundary voxel, the scan
  reads all twelve face-diagonal neighbours, and they are twelve different voxels.
\<close>

theorem scan_reads_twelve_face_diagonals_counterexample:
  "boundary 3 3 3 13 = Some False
   \<and> voxel_at 3 3 (1, 1, 1) ` face_diagonal_offsets \<subseteq> set (nbr_voxels 3 3 3 13)
   \<and> card (voxel_at 3 3 (1, 1, 1) ` face_diagonal_offsets) = 12"
  by (simp add: boundary_13 nbr_voxels_13 face_diagonal_offsets_def)

text \<open>
  C1, amended. On a grid whose voxel count fits an \<^verbatim>\<open>unsigned int\<close>, for every voxel whose
  boundary predicate evaluates to false, the neighbour voxels read by the scans of
  \<open>water_body\<close> (the entries of \<open>nbr_voxels\<close>, the same for every water of the voxel) are
  exactly the voxels at the six face offsets and at the twelve face-diagonal offsets, 18
  different voxels in 20 scans (the voxels at \<open>+z+y\<close> and \<open>+z-y\<close> are read twice); no voxel
  at one of the eight corner offsets is read.
\<close>

theorem scan_reads_faces_and_face_diagonals:
  assumes "1 \<le> nx" and "1 \<le> ny" and "1 \<le> nz"
    and "nx * ny * nz < 2 ^ 32"
    and "0 \<le> voxel" and "voxel < nx * ny * nz"
    and "boundary nx ny nz voxel = Some False"
  shows "\<exists>ix iy iz. voxel = voxel_at ny nz (ix, iy, iz) (0, 0, 0)
       \<and> set (nbr_voxels nx ny nz voxel)
           = voxel_at ny nz (ix, iy, iz) ` (face_offsets \<union> face_diagonal_offsets)
       \<and> (\<forall>d \<in> corner_offsets. voxel_at ny nz (ix, iy, iz) d \<notin> set (nbr_voxels nx ny nz voxel))
       \<and> card (set (nbr_voxels nx ny nz voxel)) = 18
       \<and> length (nbr_voxels nx ny nz voxel) = 20
       \<and> card face_offsets = 6 \<and> card face_diagonal_offsets = 12 \<and> card corner_offsets = 8"
proof -
  from not_boundary_interior [OF assms]
  obtain ix iy iz where c: "1 \<le> ix" "ix + 2 \<le> nx" "1 \<le> iy" "iy + 2 \<le> ny" "1 \<le> iz" "iz + 2 \<le> nz"
      "voxel = (ix * ny + iy) * nz + iz"
    unfolding interior_def by blast
  have "voxel = voxel_at ny nz (ix, iy, iz) (0, 0, 0)"
    using c(7) by simp
  moreover have "length (nbr_voxels nx ny nz voxel) = 20"
    by (simp add: nbr_voxels_def Let_def)
  ultimately show ?thesis
    using interior_scan [OF c assms(4)] card_offsets by blast
qed

theorem scan_reads_faces_and_face_diagonals_witness:
  "(1::int) \<le> 3 \<and> (3::int) * 3 * 3 < 2 ^ 32 \<and> (0::int) \<le> 13 \<and> (13::int) < 3 * 3 * 3
   \<and> boundary 3 3 3 13 = Some False
   \<and> (\<exists>ix iy iz. 13 = voxel_at 3 3 (ix, iy, iz) (0, 0, 0)
        \<and> set (nbr_voxels 3 3 3 13)
            = voxel_at 3 3 (ix, iy, iz) ` (face_offsets \<union> face_diagonal_offsets)
        \<and> (\<forall>d \<in> corner_offsets. voxel_at 3 3 (ix, iy, iz) d \<notin> set (nbr_voxels 3 3 3 13))
        \<and> card (set (nbr_voxels 3 3 3 13)) = 18)"
proof -
  have h: "(1::int) \<le> 3" "(3::int) * 3 * 3 < 2 ^ 32" "(0::int) \<le> 13" "(13::int) < 3 * 3 * 3"
    by simp_all
  from scan_reads_faces_and_face_diagonals [OF h(1) h(1) h(1) h(2) h(3) h(4) boundary_13]
  show ?thesis using h boundary_13 by blast
qed

section \<open>Properties of the combined estimator\<close>

lemma foldM_Some_append:
  assumes "foldM f (xs @ ys) s = Some s'"
  obtains s1 where "foldM f xs s = Some s1" and "foldM f ys s1 = Some s'"
  using assms by (auto simp: foldM_append split: option.splits)

lemma foldM_invariant:
  assumes run: "foldM f xs s = Some s'" and P: "P s"
    and step: "\<And>x s s'. P s \<Longrightarrow> f x s = Some s' \<Longrightarrow> P s'"
  shows "P s'"
  using run P
proof (induction xs arbitrary: s)
  case Nil
  then show ?case by simp
next
  case (Cons x xs)
  then show ?case by (auto split: option.splits intro: step)
qed

lemma bind_Some_iff: "(m \<bind> f) = Some y \<longleftrightarrow> (\<exists>x. m = Some x \<and> f x = Some y)"
  by (cases m) simp_all

lemma nbr_candidate_NNr:
  "nbr_candidate c0 q0 n0 c1 q1 n1 s = Some s' \<Longrightarrow> NNr s' = NNr s"
  by (auto simp: nbr_candidate_def Let_def bind_Some_iff split: if_splits)

lemma nbr_scan_NNr:
  assumes "nbr_scan I vd voxel n0 nbr s = Some s'"
  shows "NNr s' = NNr s"
proof -
  from assms obtain m where
    run: "foldM (nbr_candidate (voxel_O_coords I voxel) (voxel_quarts I voxel) n0
            (voxel_O_coords I nbr) (voxel_quarts I nbr)) [0..<nat m] s = Some s'"
    by (auto simp: nbr_scan_def bind_Some_iff split: if_splits)
  show ?thesis
    by (rule foldM_invariant [OF run, where P = "\<lambda>t. NNr t = NNr s"])
      (simp_all add: nbr_candidate_NNr)
qed

lemma nbr_scans_NNr:
  assumes "foldM (nbr_scan I vd voxel n0) nbrs s = Some s'"
  shows "NNr s' = NNr s"
  by (rule foldM_invariant [OF assms, where P = "\<lambda>t. NNr t = NNr s"])
    (simp_all add: nbr_scan_NNr)

lemma trans_accum_cols:
  assumes "trans_accum I voxel s st = Some st'"
  shows "voxel_data st' v c = (if v = voxel \<and> (c = 8 \<or> c = 12) then voxel_data st' v c else voxel_data st v c)"
    and "dTSo st' = dTSo st"
  using assms
  by (auto simp: trans_accum_def bind_Some_iff add_col_def Let_def split: if_splits)

lemma orient_accum_col10:
  assumes "orient_accum voxel nw_total s st = Some st'"
  shows "voxel_data st' voxel 10 = voxel_data st voxel 10
           + (if nw_total > 1 \<and> NNr s < 9999 \<and> 0 < NNr s
              then ln (NNr s ^ 3 * nw_total / (3 * (2 * pi))) else 0)"
  using assms
  by (auto simp: orient_accum_def bind_Some_iff add_col_def flog_def twopi_def power3_eq_cube
        split: if_splits)

lemma finite_self_rR: "finite (self_rR_candidates I voxel m n0)"
proof -
  have "self_rR_candidates I voxel m n0
        \<subseteq> (\<lambda>n1. the (water_rR (voxel_quarts I voxel) n0 (voxel_quarts I voxel) n1)) ` {..<m}"
    by (auto simp: self_rR_candidates_def image_iff) force
  then show ?thesis by (rule finite_subset) simp
qed

lemma self_rR_Suc:
  "self_rR_candidates I voxel (Suc m) n0 =
     self_rR_candidates I voxel m n0
     \<union> {rR. m \<noteq> n0 \<and> water_rR (voxel_quarts I voxel) n0 (voxel_quarts I voxel) m = Some rR \<and> 0 < rR}"
  by (auto simp: self_rR_candidates_def less_Suc_eq)

lemma self_candidate_NNr:
  assumes "self_candidate c q n0 n1 s = Some s'"
  shows "NNr s' = (if n1 \<noteq> n0 \<and> 0 < the (water_rR q n0 q n1) \<and> the (water_rR q n0 q n1) < NNr s
                   then the (water_rR q n0 q n1) else NNr s)"
    and "n1 \<noteq> n0 \<longrightarrow> (\<exists>rR. water_rR q n0 q n1 = Some rR)"
proof -
  show "n1 \<noteq> n0 \<longrightarrow> (\<exists>rR. water_rR q n0 q n1 = Some rR)"
    using assms
    by (cases "n1 = n0"; cases "water_rR q n0 q n1") (simp_all add: self_candidate_def Let_def)
  show "NNr s' = (if n1 \<noteq> n0 \<and> 0 < the (water_rR q n0 q n1) \<and> the (water_rR q n0 q n1) < NNr s
                   then the (water_rR q n0 q n1) else NNr s)"
  proof (cases "n1 = n0")
    case True
    then show ?thesis using assms by (simp add: self_candidate_def)
  next
    case False
    show ?thesis
    proof (cases "water_rR q n0 q n1")
      case None
      then show ?thesis using assms False by (simp add: self_candidate_def Let_def)
    next
      case (Some rR)
      have "s' = (let dd = water_dd c n0 c n1;
                      s1 = (if dd < NNd s \<and> dd > 0 then s\<lparr>NNd := dd\<rparr> else s);
                      ds = rR * rR + dd;
                      s2 = (if ds < NNs s1 \<and> ds > 0 then s1\<lparr>NNs := ds\<rparr> else s1)
                  in if rR > 0 \<and> rR < NNr s2 then s2\<lparr>NNr := rR\<rparr> else s2)"
        using assms False Some by (simp add: self_candidate_def Let_def)
      then show ?thesis
        using False Some by (simp add: Let_def)
    qed
  qed
qed

lemma self_loop_NNr:
  assumes "foldM (self_candidate (voxel_O_coords I voxel) (voxel_quarts I voxel) n0) [0..<m] s0 = Some s"
  shows "NNr s = Min (insert (NNr s0) (self_rR_candidates I voxel m n0))"
  using assms
proof (induction m arbitrary: s)
  case 0
  then show ?case by (simp add: self_rR_candidates_def)
next
  case (Suc m)
  from Suc.prems obtain s1 where
    s1: "foldM (self_candidate (voxel_O_coords I voxel) (voxel_quarts I voxel) n0) [0..<m] s0 = Some s1"
    and last: "self_candidate (voxel_O_coords I voxel) (voxel_quarts I voxel) n0 m s1 = Some s"
    by (auto simp: foldM_append split: option.splits)
  let ?C = "self_rR_candidates I voxel m n0"
  have ih: "NNr s1 = Min (insert (NNr s0) ?C)" by (rule Suc.IH [OF s1])
  have fin: "finite (insert (NNr s0) ?C)" by (simp add: finite_self_rR)
  note step = self_candidate_NNr [OF last]
  show ?case
  proof (cases "m \<noteq> n0 \<and> 0 < the (water_rR (voxel_quarts I voxel) n0 (voxel_quarts I voxel) m)")
    case True
    then obtain rR where rR: "water_rR (voxel_quarts I voxel) n0 (voxel_quarts I voxel) m = Some rR"
      and pos: "0 < rR" using step(2) by auto
    have set: "self_rR_candidates I voxel (Suc m) n0 = insert rR ?C"
      using True rR pos by (auto simp: self_rR_Suc)
    have "Min (insert rR (insert (NNr s0) ?C)) = min rR (Min (insert (NNr s0) ?C))"
      using fin by (subst Min_insert) auto
    then show ?thesis
      using step(1) True rR ih by (simp add: set insert_commute min_def)
  next
    case False
    then have set: "self_rR_candidates I voxel (Suc m) n0 = ?C"
      using step(2) by (auto simp: self_rR_Suc)
    show ?thesis
      using step(1) False ih by (auto simp: set)
  qed
qed

lemma double_to_int_nat: "double_to_int r = Some m \<Longrightarrow> nat m = nat \<lfloor>r\<rfloor>"
  by (auto simp: double_to_int_def Let_def split: if_splits)

lemma self_scan_NNr:
  assumes "self_scan I voxel nw_total n0 = Some s"
  shows "NNr s = self_NNr I voxel nw_total n0"
proof -
  from assms obtain m where m: "double_to_int nw_total = Some m"
    and run: "foldM (self_candidate (voxel_O_coords I voxel) (voxel_quarts I voxel) n0) [0..<nat m]
                \<lparr>NNd = 10000, NNs = 10000, NNr = 10000\<rparr> = Some s"
    by (auto simp: self_scan_def bind_Some_iff)
  show ?thesis
    using self_loop_NNr [OF run] double_to_int_nat [OF m] by (simp add: self_NNr_def)
qed

lemma self_NNr_pos: "0 < self_NNr I voxel nw_total n0"
proof -
  have fin: "finite (insert 10000 (self_rR_candidates I voxel (nat \<lfloor>nw_total\<rfloor>) n0))"
    by (simp add: finite_self_rR)
  have "\<forall>a \<in> insert 10000 (self_rR_candidates I voxel (nat \<lfloor>nw_total\<rfloor>) n0). 0 < a"
    by (auto simp: self_rR_candidates_def)
  then show ?thesis
    unfolding self_NNr_def using fin by (subst Min_gr_iff) auto
qed

lemma water_body_parts:
  assumes "water_body I nx ny nz voxel nw_total n0 st = Some st'"
  shows "\<exists>s0 st1 b. self_scan I voxel nw_total n0 = Some s0
    \<and> orient_accum voxel nw_total s0 st = Some st1
    \<and> boundary nx ny nz voxel = Some b
    \<and> (b \<longrightarrow> st' = st1)
    \<and> (\<not> b \<longrightarrow> (\<exists>s. foldM (nbr_scan I (voxel_data st1) voxel n0) (nbr_voxels nx ny nz voxel) s0 = Some s
                    \<and> trans_accum I voxel s st1 = Some st'))"
  using assms by (auto simp: water_body_def bind_Some_iff split: if_splits)

lemma water_body_interior_run:
  assumes "self_scan I voxel nw_total n0 = Some s0"
    and "orient_accum voxel nw_total s0 st = Some st1"
    and "boundary nx ny nz voxel = Some False"
    and "foldM (nbr_scan I (voxel_data st1) voxel n0) (nbr_voxels nx ny nz voxel) s0 = Some s"
    and "trans_accum I voxel s st1 = Some st'"
  shows "water_body I nx ny nz voxel nw_total n0 st = Some st'"
  by (simp add: water_body_def assms)

lemma nbr_scan_cong:
  assumes "\<forall>k. vd k 4 = vd' k 4"
  shows "nbr_scan I vd = nbr_scan I vd'"
  using assms by (intro ext) (simp add: nbr_scan_def)

lemma orient_accum_counts:
  assumes "orient_accum voxel nw_total s st = Some st'"
  shows "voxel_data st' k 4 = voxel_data st k 4"
    and "voxel_data st' voxel 8 = voxel_data st voxel 8"
    and "voxel_data st' voxel 12 = voxel_data st voxel 12"
  using assms
  by (auto simp: orient_accum_def bind_Some_iff add_col_def split: if_splits)

lemma water_body_orientation:
  assumes "water_body I nx ny nz voxel nw_total n0 st = Some st'"
  shows "voxel_data st' voxel 10
         = voxel_data st voxel 10
           + (if nw_total > 1 \<and> self_NNr I voxel nw_total n0 < 9999
              then ln ((self_NNr I voxel nw_total n0) ^ 3 * nw_total / (3 * (2 * pi))) else 0)"
proof -
  from water_body_parts [OF assms] obtain s0 st1 b where s0: "self_scan I voxel nw_total n0 = Some s0"
    and st1: "orient_accum voxel nw_total s0 st = Some st1"
    and b: "b \<longrightarrow> st' = st1"
       "\<not> b \<longrightarrow> (\<exists>s. foldM (nbr_scan I (voxel_data st1) voxel n0) (nbr_voxels nx ny nz voxel) s0 = Some s
                    \<and> trans_accum I voxel s st1 = Some st')"
    by blast
  have "voxel_data st' voxel 10 = voxel_data st1 voxel 10"
  proof (cases b)
    case True
    then show ?thesis using b(1) by simp
  next
    case False
    then obtain s where "trans_accum I voxel s st1 = Some st'" using b(2) by blast
    from trans_accum_cols(1) [OF this, of voxel 10] show ?thesis by simp
  qed
  then show ?thesis
    using orient_accum_col10 [OF st1] self_scan_NNr [OF s0] self_NNr_pos [of I voxel nw_total n0]
    by simp
qed

lemma candidate_pos:
  "self_candidate c q n0 n1 s = Some s' \<Longrightarrow> 0 < NNd s \<and> 0 < NNs s \<Longrightarrow> 0 < NNd s' \<and> 0 < NNs s'"
  "nbr_candidate c q n0 c1 q1 n1 s = Some s' \<Longrightarrow> 0 < NNd s \<and> 0 < NNs s \<Longrightarrow> 0 < NNd s' \<and> 0 < NNs s'"
  by (cases "n1 = n0"; auto simp: self_candidate_def nbr_candidate_def Let_def bind_Some_iff
        split: if_splits)+

lemma trans_accum_result:
  assumes "trans_accum I voxel s st = Some st'"
  shows "voxel_data st' voxel 8 = voxel_data st voxel 8
           + (if sqrt (NNd s) < 3 \<and> 0 < sqrt (NNd s)
              then ln (sqrt (NNd s) * sqrt (NNd s) * sqrt (NNd s) * of_int (num_frames I) * 4 * pi
                      * ref_dens I / 3) else 0)"
    and "voxel_data st' voxel 12 = voxel_data st voxel 12
           + (if sqrt (NNd s) < 3 \<and> 0 < sqrt (NNd s)
              then ln (sqrt (NNs s) * sqrt (NNs s) * sqrt (NNs s) * sqrt (NNs s) * sqrt (NNs s)
                      * sqrt (NNs s) * of_int (num_frames I) * pi * ref_dens I / 48) else 0)"
  using assms
  by (auto simp: trans_accum_def bind_Some_iff add_col_def Let_def fsqrt_def flog_def
        split: if_splits)

lemma scans_pos:
  assumes s0: "self_scan I voxel nw_total n0 = Some s0"
    and s: "foldM (nbr_scan I vd voxel n0) nbrs s0 = Some s"
  shows "0 < NNd s \<and> 0 < NNs s"
proof -
  from s0 obtain m where
    run: "foldM (self_candidate (voxel_O_coords I voxel) (voxel_quarts I voxel) n0) [0..<nat m]
            \<lparr>NNd = 10000, NNs = 10000, NNr = 10000\<rparr> = Some s0"
    by (auto simp: self_scan_def bind_Some_iff)
  have p0: "0 < NNd s0 \<and> 0 < NNs s0"
    by (rule foldM_invariant [OF run, where P = "\<lambda>t. 0 < NNd t \<and> 0 < NNs t"])
      (simp, erule (1) candidate_pos(1))
  have scan: "0 < NNd t' \<and> 0 < NNs t'"
    if "0 < NNd t \<and> 0 < NNs t" "nbr_scan I vd voxel n0 k t = Some t'" for k t t'
  proof -
    from that(2) obtain j where
      r: "foldM (nbr_candidate (voxel_O_coords I voxel) (voxel_quarts I voxel) n0
            (voxel_O_coords I k) (voxel_quarts I k)) [0..<nat j] t = Some t'"
      by (auto simp: nbr_scan_def bind_Some_iff split: if_splits)
    show ?thesis
      by (rule foldM_invariant [OF r, where P = "\<lambda>t. 0 < NNd t \<and> 0 < NNs t"])
        (rule that(1), erule (1) candidate_pos(2))
  qed
  show ?thesis
    by (rule foldM_invariant [OF s, where P = "\<lambda>t. 0 < NNd t \<and> 0 < NNs t"])
      (rule p0, erule (1) scan)
qed

lemma water_body_translation:
  assumes nb: "boundary nx ny nz voxel = Some False"
    and run: "water_body I nx ny nz voxel nw_total n0 st = Some st'"
  shows "\<exists>s0 s. self_scan I voxel nw_total n0 = Some s0
      \<and> foldM (nbr_scan I (voxel_data st) voxel n0) (nbr_voxels nx ny nz voxel) s0 = Some s
      \<and> 0 < NNd s \<and> 0 < NNs s
      \<and> voxel_data st' voxel 8 = voxel_data st voxel 8
           + (if sqrt (NNd s) < 3 \<and> 0 < sqrt (NNd s)
              then ln (sqrt (NNd s) * sqrt (NNd s) * sqrt (NNd s) * of_int (num_frames I) * 4 * pi
                      * ref_dens I / 3) else 0)
      \<and> voxel_data st' voxel 12 = voxel_data st voxel 12
           + (if sqrt (NNd s) < 3 \<and> 0 < sqrt (NNd s)
              then ln (sqrt (NNs s) * sqrt (NNs s) * sqrt (NNs s) * sqrt (NNs s) * sqrt (NNs s)
                      * sqrt (NNs s) * of_int (num_frames I) * pi * ref_dens I / 48) else 0)"
proof -
  from water_body_parts [OF run] nb obtain s0 st1 s where
    s0: "self_scan I voxel nw_total n0 = Some s0"
    and st1: "orient_accum voxel nw_total s0 st = Some st1"
    and s: "foldM (nbr_scan I (voxel_data st1) voxel n0) (nbr_voxels nx ny nz voxel) s0 = Some s"
    and tr: "trans_accum I voxel s st1 = Some st'"
    by auto
  have "nbr_scan I (voxel_data st1) = nbr_scan I (voxel_data st)"
    by (rule nbr_scan_cong) (simp add: orient_accum_counts(1) [OF st1])
  then have s': "foldM (nbr_scan I (voxel_data st) voxel n0) (nbr_voxels nx ny nz voxel) s0 = Some s"
    using s by simp
  show ?thesis
    using s0 s' scans_pos [OF s0 s'] trans_accum_result [OF tr] orient_accum_counts(2,3) [OF st1]
    by (intro exI [of _ s0] exI [of _ s]) simp
qed

lemma double_to_int_small:
  "double_to_int 0 = Some 0" "double_to_int 1 = Some 1" "double_to_int 2 = Some 2"
  by (simp_all add: double_to_int_def int_in_range_def)

lemma pi_sq: "0 < pi * pi" "pi * pi < 16"
proof -
  show "0 < pi * pi" by simp
  have "pi * pi < 4 * 4"
    using pi_less_4 pi_gt_zero by (intro mult_strict_mono) simp_all
  then show "pi * pi < 16" by simp
qed

lemma pi_numbers:
  "0 < 4 * (pi * pi) + 1" "4 * (pi * pi) + 1 < 10000" "pi * pi + 1 < 4 * (pi * pi) + 1"
  "0 < pi * pi + 1" "2 * pi < 9999" "2 * pi < 10000" "pi * pi < 10000" "pi < 9999" "pi < 10000"
  using pi_sq pi_less_4 by linarith+

lemma sqrt_10000: "sqrt 10000 = 100"
  by (rule real_sqrt_unique) simp_all

lemma nbr_scan_empty: "vd nbr 4 = 0 \<Longrightarrow> nbr_scan I vd voxel n0 nbr s = Some s"
  by (simp add: nbr_scan_def double_to_int_small)

lemma runA_self:
  "self_scan (ex_inputs coords_13_14 quarts_13_14) 13 2 0
   = Some \<lparr>NNd = 1, NNs = 4 * (pi * pi) + 1, NNr = 2 * pi\<rparr>"
  by (simp add: self_scan_def ex_inputs_def upt_2 self_candidate_def water_dd_def water_rR_def
      py_item_def coords_13_14_def quarts_13_14_def dist_squared_def facos_def Let_def
      double_to_int_small pi_numbers)

lemma runA_rR: "water_rR (quarts_13_14 13) 0 (quarts_13_14 14) 0 = Some pi"
  by (simp add: water_rR_def py_item_def quarts_13_14_def facos_def)

lemma runA_nbr:
  assumes "vd 14 4 = 1"
  shows "nbr_scan (ex_inputs coords_13_14 quarts_13_14) vd 13 0 14
           \<lparr>NNd = 1, NNs = 4 * (pi * pi) + 1, NNr = 2 * pi\<rparr>
         = Some \<lparr>NNd = 1, NNs = pi * pi + 1, NNr = 2 * pi\<rparr>"
  using assms
  by (simp add: nbr_scan_def ex_inputs_def nbr_candidate_def water_dd_def water_rR_def
      py_item_def coords_13_14_def quarts_13_14_def dist_squared_def facos_def Let_def
      double_to_int_small pi_numbers)

lemma runA_scans:
  assumes "\<forall>k. vd k 4 = counts_13_14 k 4"
  shows "foldM (nbr_scan (ex_inputs coords_13_14 quarts_13_14) vd 13 0) (nbr_voxels 3 3 3 13)
           \<lparr>NNd = 1, NNs = 4 * (pi * pi) + 1, NNr = 2 * pi\<rparr>
         = Some \<lparr>NNd = 1, NNs = pi * pi + 1, NNr = 2 * pi\<rparr>"
proof -
  have one: "vd 14 4 = 1" using assms by (simp add: counts_13_14_def)
  have none: "vd k 4 = 0" if "k \<noteq> 13" "k \<noteq> 14" for k
    using assms that by (simp add: counts_13_14_def)
  show ?thesis
    using runA_nbr [of vd, OF one]
    by (simp add: nbr_voxels_13 nbr_scan_empty none)
qed

lemma runA_orient:
  "orient_accum 13 2 \<lparr>NNd = a, NNs = b, NNr = 2 * pi\<rparr> st
   = Some (st\<lparr>voxel_data := add_col 13 10 (ln (2 * pi * (2 * pi) * (2 * pi) * 2 / (3 * (2 * pi))))
                               (voxel_data st),
              dTSo := dTSo st + ln (2 * pi * (2 * pi) * (2 * pi) * 2 / (3 * (2 * pi)))\<rparr>)"
  by (simp add: orient_accum_def flog_def twopi_def pi_numbers)

lemma runA_trans:
  "\<exists>st'. trans_accum (ex_inputs coords_13_14 quarts_13_14) 13
           \<lparr>NNd = 1, NNs = pi * pi + 1, NNr = 2 * pi\<rparr> st = Some st'"
proof -
  have "0 < sqrt (pi * pi + 1)" using pi_numbers(4) by simp
  then show ?thesis
    by (simp add: trans_accum_def fsqrt_def flog_def ex_inputs_def pi_numbers Let_def)
qed

lemma runA:
  "\<exists>st'. water_body (ex_inputs coords_13_14 quarts_13_14) 3 3 3 13 2 0 (ex_state counts_13_14)
          = Some st'"
proof -
  let ?I = "ex_inputs coords_13_14 quarts_13_14"
  let ?st = "ex_state counts_13_14"
  obtain st1 where st1: "orient_accum 13 2 \<lparr>NNd = 1, NNs = 4 * (pi * pi) + 1, NNr = 2 * pi\<rparr> ?st
      = Some st1"
    by (simp add: runA_orient)
  have same: "\<forall>k. voxel_data st1 k 4 = counts_13_14 k 4"
    using orient_accum_counts(1) [OF st1] by (simp add: ex_state_def)
  note scans = runA_scans [of "voxel_data st1", OF same]
  obtain st' where "trans_accum ?I 13 \<lparr>NNd = 1, NNs = pi * pi + 1, NNr = 2 * pi\<rparr> st1 = Some st'"
    using runA_trans by blast
  from water_body_interior_run [OF runA_self st1 boundary_13 scans this]
  show ?thesis by blast
qed

lemma runA_NNr: "self_NNr (ex_inputs coords_13_14 quarts_13_14) 13 2 0 = 2 * pi"
  using self_scan_NNr [OF runA_self] by simp

lemma runA_col10:
  assumes "water_body (ex_inputs coords_13_14 quarts_13_14) 3 3 3 13 2 0 (ex_state counts_13_14)
           = Some st'"
  shows "voxel_data st' 13 10 = ln ((2 * pi) ^ 3 * 2 / (3 * (2 * pi)))"
  using water_body_orientation [OF assms]
  by (simp add: runA_NNr pi_numbers ex_state_def counts_13_14_def)

lemma ln_differ: "ln ((2 * pi) ^ 3 * 2 / (3 * (2 * pi))) \<noteq> ln (pi ^ 3 * 2 / (3 * (2 * pi)))"
proof -
  have p: "0 < pi ^ 3 * 2 / (3 * (2 * pi))" by simp
  have "(2 * pi) ^ 3 * 2 / (3 * (2 * pi)) = 8 * (pi ^ 3 * 2 / (3 * (2 * pi)))"
    by (simp add: power3_eq_cube)
  then have "(2 * pi) ^ 3 * 2 / (3 * (2 * pi)) \<noteq> pi ^ 3 * 2 / (3 * (2 * pi))"
    using p by linarith
  moreover have "0 < (2 * pi) ^ 3 * 2 / (3 * (2 * pi))" by simp
  ultimately show ?thesis using p by (simp only: ln_inj_iff not_False_eq_True)
qed

text \<open>
  C2, as the claim states it, fails: \<open>NNr\<close> is updated only in the loop over the waters of
  the same voxel, and the orientational term is accumulated before the neighbour voxels are
  scanned. In the centre voxel 13 of a grid of 3 by 3 by 3 voxels, water 0 has a partner in
  its own voxel at the angle \<open>2 * pi\<close> and a water in the neighbour voxel 14 at the smaller
  angle \<open>pi\<close>; the term added to column 10 is the one of \<open>2 * pi\<close>, which differs from the
  one of \<open>pi\<close>.
\<close>

theorem orientation_ignores_neighbours_counterexample:
  "boundary 3 3 3 13 = Some False \<and> 14 \<in> set (nbr_voxels 3 3 3 13)
   \<and> water_rR (quarts_13_14 13) 0 (quarts_13_14 14) 0 = Some pi \<and> 0 < pi \<and> pi < 2 * pi
   \<and> (\<exists>st'. water_body (ex_inputs coords_13_14 quarts_13_14) 3 3 3 13 2 0 (ex_state counts_13_14)
               = Some st'
            \<and> voxel_data st' 13 10 = ln ((2 * pi) ^ 3 * 2 / (3 * (2 * pi))))
   \<and> ln ((2 * pi) ^ 3 * 2 / (3 * (2 * pi))) \<noteq> ln (pi ^ 3 * 2 / (3 * (2 * pi)))"
proof -
  from runA obtain st' where
    run: "water_body (ex_inputs coords_13_14 quarts_13_14) 3 3 3 13 2 0 (ex_state counts_13_14)
          = Some st'" by blast
  then have "\<exists>st'. water_body (ex_inputs coords_13_14 quarts_13_14) 3 3 3 13 2 0
                      (ex_state counts_13_14) = Some st'
            \<and> voxel_data st' 13 10 = ln ((2 * pi) ^ 3 * 2 / (3 * (2 * pi)))"
    using runA_col10 by blast
  then show ?thesis
    using boundary_13 runA_rR ln_differ by (simp add: nbr_voxels_13)
qed

text \<open>
  C2, amended. In \<open>getNNTrEntropy\<close>, the \<open>NNr\<close> used for the term
  \<open>ln (NNr ^ 3 * N / (3 * 2 * pi))\<close> added to column 10 for a water \<open>n0\<close> is \<open>self_NNr\<close>: the
  least of the sentinel 10000 and the strictly positive quaternion angles to the other
  waters of the same voxel only; the term is added when the voxel count exceeds 1 and that
  least value is below 9999. The scans of the neighbour voxels never change \<open>NNr\<close>.
\<close>

theorem orientation_uses_same_voxel_only:
  assumes "water_body I nx ny nz voxel nw_total n0 st = Some st'"
  shows "voxel_data st' voxel 10
         = voxel_data st voxel 10
           + (if nw_total > 1 \<and> self_NNr I voxel nw_total n0 < 9999
              then ln ((self_NNr I voxel nw_total n0) ^ 3 * nw_total / (3 * (2 * pi))) else 0)
       \<and> (\<forall>vd nbrs s s'. foldM (nbr_scan I vd voxel n0) nbrs s = Some s' \<longrightarrow> NNr s' = NNr s)"
  using water_body_orientation [OF assms] nbr_scans_NNr by blast

theorem orientation_uses_same_voxel_only_witness:
  "\<exists>st'. water_body (ex_inputs coords_13_14 quarts_13_14) 3 3 3 13 2 0 (ex_state counts_13_14)
            = Some st'
        \<and> voxel_data st' 13 10
          = voxel_data (ex_state counts_13_14) 13 10
            + (if (2::real) > 1 \<and> self_NNr (ex_inputs coords_13_14 quarts_13_14) 13 2 0 < 9999
               then ln ((self_NNr (ex_inputs coords_13_14 quarts_13_14) 13 2 0) ^ 3 * 2
                        / (3 * (2 * pi))) else 0)"
proof -
  from runA obtain st' where
    run: "water_body (ex_inputs coords_13_14 quarts_13_14) 3 3 3 13 2 0 (ex_state counts_13_14)
          = Some st'" by blast
  from orientation_uses_same_voxel_only [OF run] run show ?thesis by blast
qed

text \<open>
  C3, amended. For a water of a voxel that is not a boundary voxel, with \<open>NNd\<close> and \<open>NNs\<close>
  the sentinels after the scan of the voxel and of its neighbour voxels (both are
  positive), the translational term \<open>ln (d ^ 3 * F * 4 * pi * rho / 3)\<close> and the
  six-dimensional term \<open>ln (s ^ 6 * F * pi * rho / 48)\<close>, where \<open>d\<close> and \<open>s\<close> are the square
  roots of \<open>NNd\<close> and \<open>NNs\<close>, are added to columns 8 and 12 together, exactly when
  \<open>0 < d < 3\<close>; the guard tests \<open>NNd\<close> alone.
\<close>

theorem translation_terms_guarded_by_NNd:
  assumes "boundary nx ny nz voxel = Some False"
    and "water_body I nx ny nz voxel nw_total n0 st = Some st'"
  shows "\<exists>s0 s. self_scan I voxel nw_total n0 = Some s0
      \<and> foldM (nbr_scan I (voxel_data st) voxel n0) (nbr_voxels nx ny nz voxel) s0 = Some s
      \<and> 0 < NNd s \<and> 0 < NNs s
      \<and> voxel_data st' voxel 8 = voxel_data st voxel 8
           + (if sqrt (NNd s) < 3 \<and> 0 < sqrt (NNd s)
              then ln (sqrt (NNd s) * sqrt (NNd s) * sqrt (NNd s) * of_int (num_frames I) * 4 * pi
                      * ref_dens I / 3) else 0)
      \<and> voxel_data st' voxel 12 = voxel_data st voxel 12
           + (if sqrt (NNd s) < 3 \<and> 0 < sqrt (NNd s)
              then ln (sqrt (NNs s) * sqrt (NNs s) * sqrt (NNs s) * sqrt (NNs s) * sqrt (NNs s)
                      * sqrt (NNs s) * of_int (num_frames I) * pi * ref_dens I / 48) else 0)"
  using assms by (rule water_body_translation)

theorem translation_terms_guarded_by_NNd_witness:
  "boundary 3 3 3 13 = Some False
   \<and> (\<exists>st' s0 s.
        water_body (ex_inputs coords_13_14 quarts_13_14) 3 3 3 13 2 0 (ex_state counts_13_14)
          = Some st'
        \<and> self_scan (ex_inputs coords_13_14 quarts_13_14) 13 2 0 = Some s0
        \<and> foldM (nbr_scan (ex_inputs coords_13_14 quarts_13_14)
                   (voxel_data (ex_state counts_13_14)) 13 0) (nbr_voxels 3 3 3 13) s0 = Some s
        \<and> voxel_data st' 13 8 = voxel_data (ex_state counts_13_14) 13 8
           + (if sqrt (NNd s) < 3 \<and> 0 < sqrt (NNd s)
              then ln (sqrt (NNd s) * sqrt (NNd s) * sqrt (NNd s)
                      * of_int (num_frames (ex_inputs coords_13_14 quarts_13_14)) * 4 * pi
                      * ref_dens (ex_inputs coords_13_14 quarts_13_14) / 3) else 0))"
proof -
  from runA obtain st' where
    run: "water_body (ex_inputs coords_13_14 quarts_13_14) 3 3 3 13 2 0 (ex_state counts_13_14)
          = Some st'" by blast
  from translation_terms_guarded_by_NNd [OF boundary_13 run] run boundary_13
  show ?thesis by blast
qed

lemma nbr_scans_empty:
  "\<forall>k \<in> set nbrs. vd k 4 = 0 \<Longrightarrow> foldM (nbr_scan I vd voxel n0) nbrs s = Some s"
  by (induction nbrs) (simp_all add: nbr_scan_empty)

lemma runB_self:
  "self_scan (ex_inputs coords_13 quarts_13) 13 2 0 = Some \<lparr>NNd = 10000, NNs = pi * pi, NNr = pi\<rparr>"
  by (simp add: self_scan_def ex_inputs_def upt_2 self_candidate_def water_dd_def water_rR_def
      py_item_def coords_13_def quarts_13_def dist_squared_def facos_def Let_def
      double_to_int_small pi_numbers)

lemma runB_scans:
  "foldM (nbr_scan (ex_inputs coords_13 quarts_13) counts_13 13 0) (nbr_voxels 3 3 3 13) s = Some s"
  by (rule nbr_scans_empty) (simp add: nbr_voxels_13 counts_13_def)

lemma runB_trans:
  "trans_accum (ex_inputs coords_13 quarts_13) 13 \<lparr>NNd = 10000, NNs = pi * pi, NNr = pi\<rparr> st
   = Some st"
  by (simp add: trans_accum_def fsqrt_def sqrt_10000)

lemma runB:
  "\<exists>st'. water_body (ex_inputs coords_13 quarts_13) 3 3 3 13 2 0 (ex_state counts_13) = Some st'
      \<and> voxel_data st' 13 8 = 0 \<and> voxel_data st' 13 12 = 0 \<and> dTSt st' = 0 \<and> dTSs st' = 0"
proof -
  let ?s = "\<lparr>NNd = 10000, NNs = pi * pi, NNr = pi\<rparr>"
  have "0 < pi * pi * pi * 2 / (3 * twopi)" by (simp add: twopi_def)
  then obtain st1 where st1: "orient_accum 13 2 ?s (ex_state counts_13) = Some st1"
    by (simp add: orient_accum_def flog_def pi_numbers)
  have same: "\<forall>k. voxel_data st1 k 4 = counts_13 k 4"
    using orient_accum_counts(1) [OF st1] by (simp add: ex_state_def)
  have "nbr_scan (ex_inputs coords_13 quarts_13) (voxel_data st1)
        = nbr_scan (ex_inputs coords_13 quarts_13) counts_13"
    by (rule nbr_scan_cong) (rule same)
  then have scans: "foldM (nbr_scan (ex_inputs coords_13 quarts_13) (voxel_data st1) 13 0)
                      (nbr_voxels 3 3 3 13) ?s = Some ?s"
    by (simp add: runB_scans)
  have run: "water_body (ex_inputs coords_13 quarts_13) 3 3 3 13 2 0 (ex_state counts_13) = Some st1"
    by (rule water_body_interior_run [OF runB_self st1 boundary_13 scans runB_trans])
  have "voxel_data st1 13 8 = 0" "voxel_data st1 13 12 = 0"
    using orient_accum_counts(2,3) [OF st1] by (simp_all add: ex_state_def counts_13_def)
  moreover have "dTSt st1 = 0" "dTSs st1 = 0"
    using st1 by (auto simp: orient_accum_def bind_Some_iff ex_state_def split: if_splits)
  ultimately show ?thesis using run by blast
qed

lemma sixd_term_pos: "0 < ln (pi ^ 6 * 1 * pi * 1 / 48)"
proof -
  have "(2::real) ^ 6 \<le> pi ^ 6" using pi_ge_two by (intro power_mono) simp_all
  then have "64 * 2 \<le> pi ^ 6 * pi"
    using pi_ge_two by (intro mult_mono) simp_all
  then have "1 < pi ^ 6 * 1 * pi * 1 / 48" by simp
  then show ?thesis by (rule ln_gt_zero)
qed

text \<open>
  C3, as the claim states it, fails for the six-dimensional term: in the centre voxel 13
  of a grid of 3 by 3 by 3 voxels with two waters at the same position and the quaternion
  angle \<open>pi\<close> between them, the scan of water 0 leaves \<open>NNd\<close> at the sentinel 10000 and
  updates \<open>NNs\<close> to \<open>pi * pi\<close>, whose square root \<open>pi\<close> is positive; yet nothing is added to
  column 12, although the six-dimensional term of that value is positive.
\<close>

theorem sixd_term_dropped_counterexample:
  "boundary 3 3 3 13 = Some False
   \<and> self_scan (ex_inputs coords_13 quarts_13) 13 2 0 = Some \<lparr>NNd = 10000, NNs = pi * pi, NNr = pi\<rparr>
   \<and> foldM (nbr_scan (ex_inputs coords_13 quarts_13) counts_13 13 0) (nbr_voxels 3 3 3 13)
        \<lparr>NNd = 10000, NNs = pi * pi, NNr = pi\<rparr> = Some \<lparr>NNd = 10000, NNs = pi * pi, NNr = pi\<rparr>
   \<and> sqrt (pi * pi) = pi \<and> 0 < pi
   \<and> (\<exists>st'. water_body (ex_inputs coords_13 quarts_13) 3 3 3 13 2 0 (ex_state counts_13) = Some st'
            \<and> voxel_data st' 13 8 = 0 \<and> voxel_data st' 13 12 = 0 \<and> dTSt st' = 0 \<and> dTSs st' = 0)
   \<and> 0 < ln (pi ^ 6 * 1 * pi * 1 / 48)"
  using boundary_13 runB_self runB_scans runB sixd_term_pos by simp

lemma voxel_body_empty:
  assumes count: "voxel_data st voxel 4 = 0"
    and fresh: "voxel_data st voxel 8 = 0" "voxel_data st voxel 10 = 0"
    and fv: "of_int (num_frames I) * voxel_vol I \<noteq> 0" and rho: "ref_dens I \<noteq> 0"
    and stride: "u32 (ny * nz) \<noteq> 0" and nw: "int_in_range (nwtt st)"
  shows "voxel_body I nx ny nz voxel st
         = Some (st\<lparr>voxel_data := set_col voxel 11 0 (set_col voxel 7 0 (voxel_data st)),
                    dTSorienttot := dTSorienttot st + voxel_data st voxel 9\<rparr>)"
proof -
  have cast: "double_to_int (of_int (nwtt st)) = Some (nwtt st)"
    using nw by (simp add: double_to_int_def)
  show ?thesis
    using assms
    by (simp add: voxel_body_def cast double_to_int_small fdiv_def add_col_def orient_norm_def
          trans_norm_def set_col_def Let_def)
qed

lemma stride_3: "u32 (3 * 3) \<noteq> 0" "u32 9 \<noteq> 0" "int_in_range 0"
  by (simp_all add: u32_def int_in_range_def)

text \<open>
  C6, as the claim states it, fails when the table is not clear on entry: for a voxel with
  count 0 whose column 10 holds 1, the guard \<^verbatim>\<open>dTSorient_norm != 0\<close> holds and the
  normalisation divides by the zero count; for a voxel with count 0 whose column 9 holds
  5 the density of column 9 is still 5 afterwards.
\<close>

theorem stale_columns_counterexample:
  "stale_col10 13 4 = 0 \<and> fdiv (stale_col10 13 10) (stale_col10 13 4) = None
   \<and> voxel_body (ex_inputs no_waters no_waters) 3 3 3 13 (ex_state stale_col10) = None
   \<and> stale_col9 13 4 = 0
   \<and> (\<exists>st'. voxel_body (ex_inputs no_waters no_waters) 3 3 3 13 (ex_state stale_col9) = Some st'
            \<and> voxel_data st' 13 9 = 5)"
proof -
  have "voxel_body (ex_inputs no_waters no_waters) 3 3 3 13 (ex_state stale_col10) = None"
    by (simp add: voxel_body_def stride_3 ex_state_def ex_inputs_def stale_col10_def
          double_to_int_small fdiv_def orient_norm_def Let_def add_col_def)
  moreover have "\<exists>st'. voxel_body (ex_inputs no_waters no_waters) 3 3 3 13 (ex_state stale_col9)
                         = Some st' \<and> voxel_data st' 13 9 = 5"
    by (subst voxel_body_empty)
      (simp_all add: stride_3 ex_state_def ex_inputs_def stale_col9_def set_col_def)
  ultimately show ?thesis
    by (simp add: stale_col10_def stale_col9_def fdiv_def)
qed

text \<open>
  C6, amended. For a voxel whose count (column 4) is zero and whose columns 8, 9 and 10 are
  zero on entry, with a non-zero product of frame count and voxel volume and a non-zero
  reference density, the body of the voxel loop returns without dividing by zero: no water
  is processed, columns 8, 10 and 12 keep their values (the normalisation by the count is
  skipped), columns 7, 9 and 11 are zero afterwards, and the grid sums and the other voxels
  are unchanged.
\<close>

theorem empty_voxel_contributes_nothing:
  assumes "voxel_data st voxel 4 = 0"
    and "voxel_data st voxel 8 = 0" and "voxel_data st voxel 9 = 0" and "voxel_data st voxel 10 = 0"
    and "of_int (num_frames I) * voxel_vol I \<noteq> 0" and "ref_dens I \<noteq> 0"
    and "u32 (ny * nz) \<noteq> 0" and "int_in_range (nwtt st)"
  shows "\<exists>st'. voxel_body I nx ny nz voxel st = Some st'
       \<and> voxel_data st' voxel 8 = voxel_data st voxel 8
       \<and> voxel_data st' voxel 10 = voxel_data st voxel 10
       \<and> voxel_data st' voxel 12 = voxel_data st voxel 12
       \<and> voxel_data st' voxel 7 = 0 \<and> voxel_data st' voxel 9 = 0 \<and> voxel_data st' voxel 11 = 0
       \<and> voxel_data st' voxel 5 = voxel_data st voxel 5
       \<and> dTSt st' = dTSt st \<and> dTSs st' = dTSs st \<and> dTSo st' = dTSo st
       \<and> nwts st' = nwts st \<and> nwtt st' = nwtt st
       \<and> dTStranstot st' = dTStranstot st \<and> dTSorienttot st' = dTSorienttot st
       \<and> (\<forall>v. v \<noteq> voxel \<longrightarrow> voxel_data st' v = voxel_data st v)"
  using assms(3)
  by (simp add: voxel_body_empty [OF assms(1,2,4-8)] set_col_def)

theorem empty_voxel_contributes_nothing_witness:
  "\<exists>st'. voxel_body (ex_inputs no_waters no_waters) 3 3 3 13 (ex_state (\<lambda>v c. 0)) = Some st'
       \<and> voxel_data st' 13 8 = 0 \<and> voxel_data st' 13 10 = 0 \<and> voxel_data st' 13 12 = 0
       \<and> voxel_data st' 13 7 = 0 \<and> voxel_data st' 13 9 = 0 \<and> voxel_data st' 13 11 = 0"
proof -
  have h: "voxel_data (ex_state (\<lambda>v c. 0)) 13 4 = 0" "voxel_data (ex_state (\<lambda>v c. 0)) 13 8 = 0"
    "voxel_data (ex_state (\<lambda>v c. 0)) 13 9 = 0" "voxel_data (ex_state (\<lambda>v c. 0)) 13 10 = 0"
    "of_int (num_frames (ex_inputs no_waters no_waters)) * voxel_vol (ex_inputs no_waters no_waters) \<noteq> 0"
    "ref_dens (ex_inputs no_waters no_waters) \<noteq> 0"
    "u32 (3 * 3) \<noteq> 0" "int_in_range (nwtt (ex_state (\<lambda>v c. 0)))"
    by (simp_all add: ex_state_def ex_inputs_def u32_def int_in_range_def)
  from empty_voxel_contributes_nothing [OF h, where nx = 3]
  obtain st' where "voxel_body (ex_inputs no_waters no_waters) 3 3 3 13 (ex_state (\<lambda>v c. 0)) = Some st'"
    and "voxel_data st' 13 8 = voxel_data (ex_state (\<lambda>v c. 0)) 13 8"
    and "voxel_data st' 13 10 = voxel_data (ex_state (\<lambda>v c. 0)) 13 10"
    and "voxel_data st' 13 12 = voxel_data (ex_state (\<lambda>v c. 0)) 13 12"
    and "voxel_data st' 13 7 = 0" and "voxel_data st' 13 9 = 0" and "voxel_data st' 13 11 = 0"
    by blast
  then show ?thesis
    by (intro exI [of _ st']) (simp add: ex_state_def)
qed

end
